theory Spec2Isabelle
  imports Main "HOL-Library.FSet"
begin

section \<open>Python values\<close>

text \<open>
  A Python \<open>str\<close> is a sequence of Unicode code points, so it is modelled as a list of
  code points (natural numbers), not of bytes: \<open>re.sub\<close> in the name sanitizer replaces
  one code point at a time. ASCII literals are written \<open>ascii ''...''\<close>; the Chinese
  message texts of the source are given by their code points.
\<close>

type_synonym pystr = "nat list"

definition ascii :: "string \<Rightarrow> pystr" where
  "ascii s = map of_char s"

text \<open>
  The dynamically typed values that reach the agent: tool names, argument payloads and
  decoded JSON. Floats are not represented.
\<close>

datatype pyval =
    PNone
  | PBool bool
  | PInt int
  | PStr pystr
  | PList "pyval list"
  | PDict "(pystr \<times> pyval) list"

text \<open>Python truthiness, as used by \<open>x or y\<close> and \<open>if x:\<close>.\<close>

fun truthy :: "pyval \<Rightarrow> bool" where
  "truthy PNone = False"
| "truthy (PBool b) = b"
| "truthy (PInt i) = (i \<noteq> 0)"
| "truthy (PStr s) = (s \<noteq> [])"
| "truthy (PList xs) = (xs \<noteq> [])"
| "truthy (PDict kvs) = (kvs \<noteq> [])"

fun is_dict :: "pyval \<Rightarrow> bool" where
  "is_dict (PDict kvs) = True"
| "is_dict v = False"

text \<open>
  The library functions the source calls and that are not part of the repository are
  parameters of the model: \<open>json.loads\<close> (\<open>None\<close> when it raises), \<open>json.dumps\<close> with the
  options of \<open>save_config\<close>, and \<open>str\<close> on a value that is not a string.
\<close>

record pylib =
  json_loads :: "pystr \<Rightarrow> pyval option"
  json_dumps :: "pyval \<Rightarrow> pystr"
  str_other :: "pyval \<Rightarrow> pystr"

text \<open>\<open>str(v)\<close>: a string is returned as it is.\<close>

definition py_str :: "'a pylib_scheme \<Rightarrow> pyval \<Rightarrow> pystr" where
  "py_str py v = (case v of PStr s \<Rightarrow> s | _ \<Rightarrow> str_other py v)"

text \<open>\<open>str(n)\<close> for a non-negative integer, as the f-strings format \<open>index\<close> and \<open>i\<close>.\<close>

fun str_of_nat :: "nat \<Rightarrow> pystr" where
  "str_of_nat n = (if n < 10 then [48 + n] else str_of_nat (n div 10) @ [48 + n mod 10])"

declare str_of_nat.simps [simp del]

section \<open>Tool-name sanitizer\<close>

text \<open>The character class \<open>[a-zA-Z0-9_-]\<close> of \<open>_sanitize_and_uniq_tool_name\<close>.\<close>

definition name_char :: "nat \<Rightarrow> bool" where
  "name_char c \<longleftrightarrow>
     (97 \<le> c \<and> c \<le> 122) \<or> (65 \<le> c \<and> c \<le> 90) \<or> (48 \<le> c \<and> c \<le> 57) \<or> c = 95 \<or> c = 45"

text \<open>\<open>re.sub(r"[^a-zA-Z0-9_-]", "_", name)\<close>: every other code point becomes \<open>_\<close>.\<close>

definition re_sub_name :: "pystr \<Rightarrow> pystr" where
  "re_sub_name name = map (\<lambda>c. if name_char c then c else 95) name"

text \<open>The f-string \<open>f"{base}_{index}"\<close>.\<close>

definition suffixed :: "pystr \<Rightarrow> nat \<Rightarrow> pystr" where
  "suffixed base index = base @ [95] @ str_of_nat index"

lemma str_of_nat_not_Nil: "str_of_nat n \<noteq> []"
  by (subst str_of_nat.simps) simp

lemma str_of_nat_inj: "str_of_nat n = str_of_nat m \<Longrightarrow> n = m"
proof (induction n arbitrary: m rule: str_of_nat.induct)
  case (1 n)
  show ?case
  proof (cases "n < 10")
    case True
    show ?thesis
    proof (cases "m < 10")
      case True
      with \<open>n < 10\<close> "1.prems" show ?thesis
        by (simp add: str_of_nat.simps [of n] str_of_nat.simps [of m])
    next
      case False
      with \<open>n < 10\<close> "1.prems" show ?thesis
        using str_of_nat_not_Nil [of "m div 10"]
        by (simp add: str_of_nat.simps [of n] str_of_nat.simps [of m] Cons_eq_append_conv)
    qed
  next
    case False
    show ?thesis
    proof (cases "m < 10")
      case True
      with \<open>\<not> n < 10\<close> "1.prems" show ?thesis
        using str_of_nat_not_Nil [of "n div 10"]
        by (simp add: str_of_nat.simps [of n] str_of_nat.simps [of m] append_eq_Cons_conv)
    next
      case False
      with \<open>\<not> n < 10\<close> "1.prems"
      have eq: "str_of_nat (n div 10) = str_of_nat (m div 10)" and md: "n mod 10 = m mod 10"
        by (simp_all add: str_of_nat.simps [of n] str_of_nat.simps [of m])
      from "1.IH" [OF \<open>\<not> n < 10\<close> eq] have "n div 10 = m div 10" .
      with md show ?thesis
        by (metis div_mult_mod_eq)
    qed
  qed
qed

lemma suffixed_inj: "suffixed base k = suffixed base j \<Longrightarrow> k = j"
  by (simp add: suffixed_def str_of_nat_inj)

lemma finite_suffixed_used: "finite {k. suffixed base k |\<in>| used}"
proof -
  have "finite ((\<lambda>k. suffixed base k) -` fset used)"
    by (rule finite_vimageI) (auto simp: inj_on_def dest: suffixed_inj)
  then show ?thesis
    by (simp add: vimage_def)
qed

text \<open>
  The uniqueness loop
  \<^verbatim>\<open>
    index = 1
    while sanitized in self._used_tool_names:
        index += 1
        sanitized = f"{base}_{index}"
  \<close>
  with the loop variables \<open>index\<close> and \<open>sanitized\<close> passed explicitly. The set of used
  names is finite, which is what makes the loop end.
\<close>

function uniq_loop :: "pystr fset \<Rightarrow> pystr \<Rightarrow> nat \<Rightarrow> pystr \<Rightarrow> nat \<times> pystr" where
  "uniq_loop used base index sanitized =
     (if sanitized |\<in>| used
      then uniq_loop used base (index + 1) (suffixed base (index + 1))
      else (index, sanitized))"
  by pat_completeness auto
termination
proof (relation "measure (\<lambda>(used, base, index, sanitized).
    card {k. index < k \<and> suffixed base k |\<in>| used} + (if sanitized |\<in>| used then 1 else 0))")
  show "wf (measure (\<lambda>(used, base, index, sanitized).
    card {k. index < k \<and> suffixed base k |\<in>| used} + (if sanitized |\<in>| used then 1 else 0)))"
    by simp
next
  fix used :: "pystr fset" and base :: pystr and index :: nat and sanitized :: pystr
  assume "sanitized |\<in>| used"
  let ?A = "{k. index < k \<and> suffixed base k |\<in>| used}"
  let ?B = "{k. index + 1 < k \<and> suffixed base k |\<in>| used}"
  have fin: "finite ?A"
    by (rule finite_subset [OF _ finite_suffixed_used [of base used]]) auto
  have "card ?B + (if suffixed base (index + 1) |\<in>| used then 1 else 0) \<le> card ?A"
  proof (cases "suffixed base (index + 1) |\<in>| used")
    case True
    then have "?A = insert (index + 1) ?B"
      by (auto simp del: One_nat_def)
    moreover have "finite ?B" "index + 1 \<notin> ?B"
      using fin by (auto intro: finite_subset [OF _ fin])
    ultimately show ?thesis
      by simp
  next
    case False
    then have "?B \<subseteq> ?A"
      by auto
    from card_mono [OF fin this] False show ?thesis
      by simp
  qed
  with \<open>sanitized |\<in>| used\<close>
  show "((used, base, index + 1, suffixed base (index + 1)), (used, base, index, sanitized))
    \<in> measure (\<lambda>(used, base, index, sanitized).
        card {k. index < k \<and> suffixed base k |\<in>| used} + (if sanitized |\<in>| used then 1 else 0))"
    by simp
qed

declare uniq_loop.simps [simp del]

text \<open>
  \<open>_sanitize_and_uniq_tool_name\<close>, in the three steps of its body. A name that is not a
  string is first replaced by \<open>str(name or "")\<close>.
\<close>

definition coerce_name :: "'a pylib_scheme \<Rightarrow> pyval \<Rightarrow> pystr" where
  "coerce_name py name =
     (case name of
        PStr s \<Rightarrow> s
      | _ \<Rightarrow> py_str py (if truthy name then name else PStr []))"

text \<open>The value of \<open>base\<close>: the substituted name, or \<open>"tool"\<close> when that is empty.\<close>

definition base_name :: "'a pylib_scheme \<Rightarrow> pyval \<Rightarrow> pystr" where
  "base_name py name =
     (let sanitized = re_sub_name (coerce_name py name)
      in if sanitized = [] then ascii ''tool'' else sanitized)"

text \<open>
  The state \<open>self._used_tool_names\<close> is passed in and returned with the new name added.
\<close>

definition sanitize_and_uniq_tool_name ::
    "'a pylib_scheme \<Rightarrow> pystr fset \<Rightarrow> pyval \<Rightarrow> pystr \<times> pystr fset" where
  "sanitize_and_uniq_tool_name py used_tool_names name =
     (let base = base_name py name;
          (index, sanitized) = uniq_loop used_tool_names base 1 base
      in (sanitized, finsert sanitized used_tool_names))"

text \<open>
  Successive calls on one agent instance, as the loop over \<open>server_tools\<close> in
  \<open>initialize\<close> makes them: each call sees the names the earlier calls have added.
\<close>

fun sanitize_calls ::
    "'a pylib_scheme \<Rightarrow> pystr fset \<Rightarrow> pyval list \<Rightarrow> pystr list \<times> pystr fset" where
  "sanitize_calls py used [] = ([], used)"
| "sanitize_calls py used (name # names) =
     (let (r, used1) = sanitize_and_uniq_tool_name py used name;
          (rs, used2) = sanitize_calls py used1 names
      in (r # rs, used2))"

section \<open>Configuration file\<close>

text \<open>
  \<open>MCPConfig\<close> reads and writes one file, \<open>self.config_file\<close>. The file system is the
  state: the text of that file (\<open>None\<close> when \<open>Path(...).exists()\<close> is false), whether
  opening and reading it succeeds, and how writing it goes. A write either succeeds; or
  \<open>open(..., 'w')\<close> raises, and the file is not touched; or \<open>open\<close> succeeds, which
  creates the file or empties it, and the write raises when only the first \<open>n\<close> code
  points of the text have reached the file. \<open>self.default_config\<close> is the empty
  dictionary.
\<close>

datatype write_outcome = WriteSucceeds | OpenFails | WriteFails nat

record filesystem =
  file_content :: "pystr option"
  readable :: bool
  on_write :: write_outcome

datatype config_log = LoadFailed | SaveFailed

definition default_config :: pyval where
  "default_config = PDict []"

text \<open>
  \<open>save_config\<close>: an exception of \<open>open\<close> or \<open>json.dump\<close> is caught and only printed. The
  file is as the failed step left it: untouched when \<open>open\<close> raised, cut off when the
  write raised.
\<close>

definition save_config ::
    "'a pylib_scheme \<Rightarrow> filesystem \<Rightarrow> pyval \<Rightarrow> filesystem \<times> config_log list" where
  "save_config py fs config =
     (case on_write fs of
        WriteSucceeds \<Rightarrow> (fs\<lparr>file_content := Some (json_dumps py config)\<rparr>, [])
      | OpenFails \<Rightarrow> (fs, [SaveFailed])
      | WriteFails n \<Rightarrow>
          (fs\<lparr>file_content := Some (take n (json_dumps py config))\<rparr>, [SaveFailed]))"

text \<open>
  \<open>load_config\<close> returns the configuration, the file system after the call and what was
  printed. The \<open>except\<close> branch does not return: control falls through to the two
  statements after the \<open>if\<close>, as it does when the file is missing.
\<close>

definition load_config ::
    "'a pylib_scheme \<Rightarrow> filesystem \<Rightarrow> pyval \<times> filesystem \<times> config_log list" where
  "load_config py fs =
     (case file_content fs of
        Some text \<Rightarrow>
          (case (if readable fs then json_loads py text else None) of
             Some config \<Rightarrow> (config, fs, [])
           | None \<Rightarrow>
               (let (fs1, printed) = save_config py fs default_config
                in (default_config, fs1, LoadFailed # printed)))
      | None \<Rightarrow>
          (let (fs1, printed) = save_config py fs default_config
           in (default_config, fs1, printed)))"

section \<open>The streaming loop \<open>chat_stream\<close>\<close>

subsection \<open>Data\<close>

text \<open>
  A tool-call intent is a dictionary (with an optional nested \<open>function\<close> dictionary)
  or an object with attributes. An absent key or attribute, and the value \<open>None\<close>, are
  \<open>None\<close> here.
\<close>

datatype fn_dict = FnDict (fn_name: "pystr option") (fn_arguments: "pyval option")

datatype tool_call =
    DictCall (dc_id: "pystr option") (dc_function: "fn_dict option")
      (dc_name: "pystr option") (dc_args: "pyval option")
  | ObjCall (oc_id: "pystr option") (oc_name: "pystr option") (oc_args: "pyval option")

text \<open>The entries of \<open>shared_history\<close>, by role.\<close>

datatype message =
    UserMsg pystr
  | AssistantMsg pystr
  | AssistantToolCalls pystr "tool_call list"
  | ToolMsg pystr pystr pystr

text \<open>A record of the caller's \<open>history\<close>: \<open>user_input\<close> and an optional \<open>ai_response\<close>.\<close>

datatype hist_record = HistRecord (hr_user_input: pystr) (hr_ai_response: "pystr option")

text \<open>
  The events \<open>chat_stream\<close> yields, one constructor for each \<open>type\<close>, with the other
  keys of the dictionary as arguments in the order of the source.
\<close>

datatype event =
    Status pystr
  | AIResponseStart pystr
  | AIResponseChunk pystr
  | AIResponseEnd pystr
  | ToolPlan pystr nat
  | ToolStart pystr pystr pyval pystr
  | ToolEnd pystr pystr pystr
  | ToolError pystr pystr
  | Error pystr

text \<open>What \<open>chat_stream\<close> prints, one constructor for each \<open>print\<close> in its body.\<close>

datatype log =
    LogStart pystr
  | LogRound nat
  | LogChunk pystr
  | LogStreamFailed pystr
  | LogConflict
  | LogToolError pystr
  | LogFinal pystr
  | LogMaxRounds nat

text \<open>
  The events of \<open>astream_events\<close>: a stream chunk (the chunk may be \<open>None\<close>, and so may
  its content), the end of the model's turn with its output, and any other event. The
  stream is a finite list of events; \<open>Raises e\<close> is the point where opening or reading
  the stream raises the exception \<open>e\<close>.
\<close>

datatype chunk = Chunk (chunk_content: "pystr option")

datatype model_output = Output (out_tool_calls: "tool_call list option") (out_content: "pystr option")

datatype model_event =
    OnChatModelStream "chunk option"
  | OnChatModelEnd "model_output option"
  | OtherEvent

datatype stream_item = Event model_event | Raises pystr

text \<open>
  A tool of \<open>self.tools\<close>: its name, and \<open>ainvoke\<close> giving \<open>str\<close> of the result (\<open>Inr\<close>)
  or the message of the exception it raises (\<open>Inl\<close>).
\<close>

datatype tool = Tool (t_name: pystr) (t_ainvoke: "pyval \<Rightarrow> pystr + pystr")

text \<open>
  The agent: the library, the tool-bound model and the registry. The model is outside
  the repository; \<open>astream_events n messages\<close> is the stream it answers to the \<open>n\<close>-th
  request with, given the transcript sent (the system message in front of it is fixed).
\<close>

record agent = pylib +
  astream_events :: "nat \<Rightarrow> message list \<Rightarrow> stream_item list"
  tools :: "tool list"

text \<open>
  The state \<open>chat_stream\<close> acts on: the transcript \<open>shared_history\<close>, the events yielded
  so far, the lines printed so far, and the tool invocations made (name and arguments).
\<close>

record chat_state =
  shared_history :: "message list"
  yielded :: "event list"
  printed :: "log list"
  invoked :: "(pystr \<times> pyval) list"

text \<open>The variables a round initialises before it opens the stream.\<close>

record round_vars =
  tool_calls_check :: "tool_call list option"
  buffered_chunks :: "pystr list"
  content_preview :: pystr
  response_started :: bool

definition yield :: "event \<Rightarrow> chat_state \<Rightarrow> chat_state" where
  "yield e st = st\<lparr>yielded := yielded st @ [e]\<rparr>"

definition print :: "log \<Rightarrow> chat_state \<Rightarrow> chat_state" where
  "print l st = st\<lparr>printed := printed st @ [l]\<rparr>"

definition append_history :: "message \<Rightarrow> chat_state \<Rightarrow> chat_state" where
  "append_history m st = st\<lparr>shared_history := shared_history st @ [m]\<rparr>"

definition record_invocation :: "pystr \<Rightarrow> pyval \<Rightarrow> chat_state \<Rightarrow> chat_state" where
  "record_invocation nm args st = st\<lparr>invoked := invoked st @ [(nm, args)]\<rparr>"

subsection \<open>Message texts\<close>

definition status_text :: pystr where
  "status_text = [0x5F00, 0x59CB, 0x751F, 0x6210, 46, 46, 46]"

definition replying_text :: pystr where
  "replying_text = [65, 73, 0x6B63, 0x5728, 0x56DE, 0x590D, 46, 46, 46]"

definition plan_text :: "nat \<Rightarrow> pystr" where
  "plan_text n = [65, 73, 0x51B3, 0x5B9A, 0x8C03, 0x7528, 32] @ str_of_nat n @ [32, 0x4E2A, 0x5DE5, 0x5177]"

definition not_found_text :: "pystr \<Rightarrow> pystr" where
  "not_found_text tool_name = [0x5DE5, 0x5177, 32, 39] @ tool_name @ [39, 32, 0x672A, 0x627E, 0x5230]"

definition exec_error_text :: "pystr \<Rightarrow> pystr" where
  "exec_error_text e = [0x5DE5, 0x5177, 0x6267, 0x884C, 0x51FA, 0x9519, 58, 32] @ e"

definition error_result :: "pystr \<Rightarrow> pystr" where
  "error_result error_msg = [0x9519, 0x8BEF, 58, 32] @ error_msg"

definition max_rounds_text :: pystr where
  "max_rounds_text =
     [0x5DF2, 0x8FBE, 0x5230, 0x6700, 0x5927, 0x63A8, 0x7406, 0x8F6E, 0x6570, 0xFF0C, 0x8BF7,
      0x7F29, 0x5C0F, 0x95EE, 0x9898, 0x8303, 0x56F4, 0x6216, 0x7A0D, 0x540E, 0x91CD, 0x8BD5,
      0x3002]"

definition progress_text :: "nat \<Rightarrow> nat \<Rightarrow> pystr" where
  "progress_text i n = str_of_nat i @ [47] @ str_of_nat n"

text \<open>The sentinel key \<open>"$raw"\<close>.\<close>

definition raw_key :: pystr where
  "raw_key = ascii ''$raw''"

subsection \<open>Reading a tool-call intent\<close>

text \<open>\<open>x or d\<close> for an optional string and for an optional value.\<close>

definition or_str :: "pystr option \<Rightarrow> pystr \<Rightarrow> pystr" where
  "or_str x d = (case x of Some s \<Rightarrow> (if s \<noteq> [] then s else d) | None \<Rightarrow> d)"

definition or_val :: "pyval option \<Rightarrow> pyval \<Rightarrow> pyval" where
  "or_val x d = (case x of Some v \<Rightarrow> (if truthy v then v else d) | None \<Rightarrow> d)"

text \<open>\<open>tool_id\<close>, \<open>tool_name\<close> and \<open>tool_args_raw\<close> of the \<open>i\<close>-th intent.\<close>

fun tool_call_fields :: "nat \<Rightarrow> tool_call \<Rightarrow> pystr \<times> pystr \<times> pyval" where
  "tool_call_fields i (DictCall cid func nm args) =
     (let tool_id = or_str cid (ascii ''call_'' @ str_of_nat i);
          fn = (case func of Some f \<Rightarrow> f | None \<Rightarrow> FnDict None None);
          tool_name = or_str (fn_name fn) (or_str nm []);
          tool_args_raw = or_val (fn_arguments fn) (or_val args (PDict []))
      in (tool_id, tool_name, tool_args_raw))"
| "tool_call_fields i (ObjCall cid nm args) =
     (let tool_id = or_str cid (ascii ''call_'' @ str_of_nat i);
          tool_name = or_str nm [];
          tool_args_raw = or_val args (PDict [])
      in (tool_id, tool_name, tool_args_raw))"

text \<open>
  The argument parsing
  \<^verbatim>\<open>
    if isinstance(tool_args_raw, str):
        try:
            parsed_args = json.loads(tool_args_raw) if tool_args_raw else {}
        except Exception:
            parsed_args = {"$raw": tool_args_raw}
    elif isinstance(tool_args_raw, dict):
        parsed_args = tool_args_raw
    else:
        parsed_args = {"$raw": str(tool_args_raw)}
  \<close>
\<close>

definition parse_args :: "'a pylib_scheme \<Rightarrow> pyval \<Rightarrow> pyval" where
  "parse_args py tool_args_raw =
     (case tool_args_raw of
        PStr s \<Rightarrow>
          (if s \<noteq> []
           then (case json_loads py s of
                   Some v \<Rightarrow> v
                 | None \<Rightarrow> PDict [(raw_key, PStr s)])
           else PDict [])
      | PDict kvs \<Rightarrow> PDict kvs
      | _ \<Rightarrow> PDict [(raw_key, PStr (py_str py tool_args_raw))])"

subsection \<open>Consuming the stream\<close>

text \<open>
  The \<open>async for\<close> over the stream inside its \<open>try\<close>. A non-empty content piece is
  yielded at once, after \<open>ai_response_start\<close> for the first one of the round; the end
  event sets \<open>tool_calls_check\<close> and \<open>content_preview\<close>. The \<open>except\<close> branch ends the
  loop and resets these two variables only: \<open>buffered_chunks\<close> and \<open>response_started\<close>
  keep their values.
\<close>

fun consume_stream :: "stream_item list \<Rightarrow> round_vars \<Rightarrow> chat_state \<Rightarrow> round_vars \<times> chat_state" where
  "consume_stream [] rv st = (rv, st)"
| "consume_stream (Raises e # rest) rv st =
     (rv\<lparr>tool_calls_check := None, content_preview := []\<rparr>, print (LogStreamFailed e) st)"
| "consume_stream (Event (OnChatModelStream None) # rest) rv st = consume_stream rest rv st"
| "consume_stream (Event (OnChatModelStream (Some chunk)) # rest) rv st =
     (case chunk_content chunk of
        None \<Rightarrow> consume_stream rest rv st
      | Some content_piece \<Rightarrow>
          (if content_piece \<noteq> []
           then (let st1 = (if \<not> response_started rv
                            then yield (AIResponseStart replying_text) st else st);
                     rv1 = rv\<lparr>response_started := True,
                              buffered_chunks := buffered_chunks rv @ [content_piece]\<rparr>;
                     st2 = print (LogChunk content_piece) st1;
                     st3 = yield (AIResponseChunk content_piece) st2
                 in consume_stream rest rv1 st3)
           else consume_stream rest rv st))"
| "consume_stream (Event (OnChatModelEnd out) # rest) rv st =
     consume_stream rest
       (rv\<lparr>tool_calls_check := (case out of Some output \<Rightarrow> out_tool_calls output | None \<Rightarrow> None),
           content_preview := (case out of Some output \<Rightarrow> or_str (out_content output) []
                               | None \<Rightarrow> [])\<rparr>)
       st"
| "consume_stream (Event OtherEvent # rest) rv st = consume_stream rest rv st"

subsection \<open>Running the tools of a round\<close>

text \<open>
  The body of \<open>for i, tool_call in enumerate(tool_calls_to_run, 1)\<close>, with \<open>n\<close> the number
  of intents. The registry is searched for the first tool of that exact name. Whatever
  happens, a tool message is appended to the transcript at the end.
\<close>

definition exec_tool_call :: "'a agent_scheme \<Rightarrow> nat \<Rightarrow> nat \<Rightarrow> tool_call \<Rightarrow> chat_state \<Rightarrow> chat_state" where
  "exec_tool_call ag n i tool_call st =
     (let (tool_id, tool_name, tool_args_raw) = tool_call_fields i tool_call;
          parsed_args = parse_args ag tool_args_raw;
          st1 = yield (ToolStart tool_id tool_name parsed_args (progress_text i n)) st;
          (tool_result, st2) =
            (case find (\<lambda>tool. t_name tool = tool_name) (tools ag) of
               None \<Rightarrow>
                 (let error_msg = not_found_text tool_name
                  in (error_result error_msg,
                      yield (ToolError tool_id error_msg) (print (LogToolError error_msg) st1)))
             | Some target_tool \<Rightarrow>
                 (case t_ainvoke target_tool parsed_args of
                    Inr tool_result \<Rightarrow>
                      (tool_result,
                       yield (ToolEnd tool_id tool_name tool_result)
                         (record_invocation tool_name parsed_args st1))
                  | Inl e \<Rightarrow>
                      (let error_msg = exec_error_text e
                       in (error_result error_msg,
                           yield (ToolError tool_id error_msg)
                             (print (LogToolError error_msg)
                               (record_invocation tool_name parsed_args st1))))))
      in append_history (ToolMsg tool_id tool_name tool_result) st2)"

fun exec_tool_calls :: "'a agent_scheme \<Rightarrow> nat \<Rightarrow> nat \<Rightarrow> tool_call list \<Rightarrow> chat_state \<Rightarrow> chat_state" where
  "exec_tool_calls ag n i [] st = st"
| "exec_tool_calls ag n i (tool_call # rest) st =
     exec_tool_calls ag n (i + 1) rest (exec_tool_call ag n i tool_call st)"

text \<open>
  The branch \<open>if tool_calls_check:\<close>. The warning is printed when text was already
  streamed, and the tools run all the same. \<open>exit_to_stream\<close> is never set, so the
  branch always ends in \<open>continue\<close>.
\<close>

definition tool_round :: "'a agent_scheme \<Rightarrow> tool_call list \<Rightarrow> round_vars \<Rightarrow> chat_state \<Rightarrow> chat_state" where
  "tool_round ag tool_calls_to_run rv st =
     (let st1 = (if response_started rv then print LogConflict st else st);
          st2 = yield (ToolPlan (plan_text (length tool_calls_to_run)) (length tool_calls_to_run)) st1;
          st3 = append_history (AssistantToolCalls [] tool_calls_to_run) st2
      in exec_tool_calls ag (length tool_calls_to_run) 1 tool_calls_to_run st3)"

subsection \<open>Finishing without tools\<close>

text \<open>
  Step 3 of the round: the final text is the joined buffer when something was buffered
  and \<open>content_preview\<close> otherwise.
\<close>

definition final_text :: "round_vars \<Rightarrow> pystr" where
  "final_text rv =
     (if buffered_chunks rv \<noteq> [] then concat (buffered_chunks rv) else content_preview rv)"

definition finish_round :: "round_vars \<Rightarrow> chat_state \<Rightarrow> chat_state" where
  "finish_round rv st =
     (if response_started rv
      then yield (AIResponseEnd (final_text rv)) st
      else (let st1 = yield (AIResponseStart replying_text) st;
                st2 = (if final_text rv \<noteq> []
                       then yield (AIResponseChunk (final_text rv)) (print (LogFinal (final_text rv)) st1)
                       else st1)
            in yield (AIResponseEnd (final_text rv)) st2))"

subsection \<open>The rounds\<close>

definition max_rounds :: nat where
  "max_rounds = 25"

definition init_round_vars :: round_vars where
  "init_round_vars =
     \<lparr>tool_calls_check = None, buffered_chunks = [], content_preview = [],
      response_started = False\<rparr>"

text \<open>The variables and state after the stream of round \<open>round_index\<close> was consumed.\<close>

definition round_stream :: "'a agent_scheme \<Rightarrow> nat \<Rightarrow> chat_state \<Rightarrow> round_vars \<times> chat_state" where
  "round_stream ag round_index st =
     consume_stream (astream_events ag round_index (shared_history st)) init_round_vars
       (print (LogRound round_index) st)"

text \<open>
  One pass through the body of the \<open>while\<close> loop, \<open>round_index\<close> already incremented.
  The result says whether the loop continues (the tool branch) or returns.
\<close>

definition chat_round :: "'a agent_scheme \<Rightarrow> nat \<Rightarrow> chat_state \<Rightarrow> bool \<times> chat_state" where
  "chat_round ag round_index st =
     (let (rv, st1) = round_stream ag round_index st
      in (case tool_calls_check rv of
            Some (tc # tcs) \<Rightarrow> (True, tool_round ag (tc # tcs) rv st1)
          | _ \<Rightarrow> (False, finish_round rv st1)))"

text \<open>What follows the loop when the rounds are used up.\<close>

definition rounds_exhausted :: "chat_state \<Rightarrow> chat_state" where
  "rounds_exhausted st =
     yield (AIResponseEnd max_rounds_text)
       (yield (AIResponseChunk max_rounds_text)
         (yield (AIResponseStart replying_text)
           (print (LogMaxRounds max_rounds) st)))"

text \<open>\<open>while round_index < max_rounds\<close>.\<close>

function chat_loop :: "'a agent_scheme \<Rightarrow> nat \<Rightarrow> chat_state \<Rightarrow> chat_state" where
  "chat_loop ag round_index st =
     (if round_index < max_rounds
      then (if fst (chat_round ag (round_index + 1) st)
            then chat_loop ag (round_index + 1) (snd (chat_round ag (round_index + 1) st))
            else snd (chat_round ag (round_index + 1) st))
      else rounds_exhausted st)"
  by pat_completeness auto
termination
  by (relation "measure (\<lambda>(ag, round_index, st). max_rounds - round_index)") auto

declare chat_loop.simps [simp del]

text \<open>
  The transcript a request starts from: a user entry for each record of \<open>history\<close>, an
  assistant entry after it when the record has a non-empty \<open>ai_response\<close>, and the new
  input last. A \<open>history\<close> of \<open>None\<close> is the empty list.
\<close>

fun build_history :: "hist_record list \<Rightarrow> message list" where
  "build_history [] = []"
| "build_history (r # rs) =
     UserMsg (hr_user_input r)
       # (case hr_ai_response r of
            Some a \<Rightarrow> (if a \<noteq> [] then [AssistantMsg a] else [])
          | None \<Rightarrow> [])
       @ build_history rs"

text \<open>
  \<open>chat_stream\<close>, as the state after the caller has drawn every event. Setting the
  session id has no effect on the events and is left out. With typed intents and finite
  streams nothing in the body raises, so the outer \<open>except\<close>, which would yield an
  \<open>error\<close> event, is never entered.
\<close>

definition chat_stream :: "'a agent_scheme \<Rightarrow> pystr \<Rightarrow> hist_record list \<Rightarrow> chat_state" where
  "chat_stream ag user_input history =
     (let st0 = \<lparr>shared_history = [], yielded = [], printed = [], invoked = []\<rparr>;
          st1 = print (LogStart (take 50 user_input)) st0;
          st2 = yield (Status status_text) st1;
          st3 = st2\<lparr>shared_history := build_history history @ [UserMsg user_input]\<rparr>
      in chat_loop ag 0 st3)"

section \<open>Notions used to state the properties\<close>

text \<open>
  The definitions of this section are not part of the program: they name what the
  properties below talk about.
\<close>

subsection \<open>Streams\<close>

fun is_raises :: "stream_item \<Rightarrow> bool" where
  "is_raises (Raises e) = True"
| "is_raises (Event ev) = False"

text \<open>A stream, or a part of one, that is read without an exception.\<close>

definition no_raise :: "stream_item list \<Rightarrow> bool" where
  "no_raise s = list_all (\<lambda>x. \<not> is_raises x) s"

text \<open>
  The content fragments of a stream: the non-empty contents of its stream chunks, in
  order, up to the first exception.
\<close>

fun content_pieces :: "stream_item list \<Rightarrow> pystr list" where
  "content_pieces [] = []"
| "content_pieces (Raises e # rest) = []"
| "content_pieces (Event (OnChatModelStream (Some (Chunk (Some piece)))) # rest) =
     (if piece \<noteq> [] then piece # content_pieces rest else content_pieces rest)"
| "content_pieces (Event ev # rest) = content_pieces rest"

text \<open>A stream part made of content fragments only, one stream chunk for each.\<close>

definition fragments :: "pystr list \<Rightarrow> stream_item list" where
  "fragments frags = map (\<lambda>f. Event (OnChatModelStream (Some (Chunk (Some f))))) frags"

text \<open>
  A stream that is read to its end without an exception and whose last event is the end
  of the model's turn, reporting at least one tool-call intent.
\<close>

definition tool_call_stream :: "stream_item list \<Rightarrow> bool" where
  "tool_call_stream s \<longleftrightarrow>
     s \<noteq> [] \<and> no_raise (butlast s) \<and>
     (case last s of
        Event (OnChatModelEnd (Some output)) \<Rightarrow>
          (case out_tool_calls output of Some (tc # tcs) \<Rightarrow> True | _ \<Rightarrow> False)
      | _ \<Rightarrow> False)"

subsection \<open>What one intent leads to\<close>

text \<open>The identifier, the tool name and the parsed arguments of the \<open>i\<close>-th intent.\<close>

definition intent_id :: "nat \<Rightarrow> tool_call \<Rightarrow> pystr" where
  "intent_id i tc = fst (tool_call_fields i tc)"

definition intent_name :: "nat \<Rightarrow> tool_call \<Rightarrow> pystr" where
  "intent_name i tc = fst (snd (tool_call_fields i tc))"

definition intent_args :: "'a agent_scheme \<Rightarrow> nat \<Rightarrow> tool_call \<Rightarrow> pyval" where
  "intent_args ag i tc = parse_args ag (snd (snd (tool_call_fields i tc)))"

text \<open>The identifier the intent itself carries, if any.\<close>

fun given_id :: "tool_call \<Rightarrow> pystr option" where
  "given_id (DictCall cid func nm args) = cid"
| "given_id (ObjCall cid nm args) = cid"

text \<open>Lookup in the registry: the first tool with exactly that name.\<close>

definition lookup_tool :: "'a agent_scheme \<Rightarrow> pystr \<Rightarrow> tool option" where
  "lookup_tool ag nm = find (\<lambda>tool. t_name tool = nm) (tools ag)"

text \<open>
  The outcome expected of an intent, as the event after \<open>tool_start\<close> and the content of
  the transcript entry: an error event and an error text when no tool has the name or
  when the invocation raises, the end event and the result otherwise.
\<close>

definition intent_outcome :: "'a agent_scheme \<Rightarrow> nat \<Rightarrow> tool_call \<Rightarrow> event \<times> pystr" where
  "intent_outcome ag i tc =
     (case lookup_tool ag (intent_name i tc) of
        None \<Rightarrow>
          (ToolError (intent_id i tc) (not_found_text (intent_name i tc)),
           error_result (not_found_text (intent_name i tc)))
      | Some t \<Rightarrow>
          (case t_ainvoke t (intent_args ag i tc) of
             Inl e \<Rightarrow>
               (ToolError (intent_id i tc) (exec_error_text e), error_result (exec_error_text e))
           | Inr r \<Rightarrow> (ToolEnd (intent_id i tc) (intent_name i tc) r, r)))"

text \<open>The two events, the transcript entry and the invocation expected of an intent.\<close>

definition intent_events :: "'a agent_scheme \<Rightarrow> nat \<Rightarrow> nat \<times> tool_call \<Rightarrow> event list" where
  "intent_events ag n = (\<lambda>(i, tc).
     [ToolStart (intent_id i tc) (intent_name i tc) (intent_args ag i tc) (progress_text i n),
      fst (intent_outcome ag i tc)])"

definition intent_message :: "'a agent_scheme \<Rightarrow> nat \<times> tool_call \<Rightarrow> message" where
  "intent_message ag = (\<lambda>(i, tc).
     ToolMsg (intent_id i tc) (intent_name i tc) (snd (intent_outcome ag i tc)))"

definition intent_invocations :: "'a agent_scheme \<Rightarrow> nat \<times> tool_call \<Rightarrow> (pystr \<times> pyval) list" where
  "intent_invocations ag = (\<lambda>(i, tc).
     (case lookup_tool ag (intent_name i tc) of
        None \<Rightarrow> []
      | Some t \<Rightarrow> [(intent_name i tc, intent_args ag i tc)]))"

subsection \<open>Kinds of values\<close>

fun is_str :: "pyval \<Rightarrow> bool" where
  "is_str (PStr s) = True"
| "is_str v = False"

subsection \<open>Kinds of events and of printed lines\<close>

fun is_round_log :: "log \<Rightarrow> bool" where
  "is_round_log (LogRound n) = True"
| "is_round_log l = False"

fun is_conflict_log :: "log \<Rightarrow> bool" where
  "is_conflict_log LogConflict = True"
| "is_conflict_log l = False"

fun is_error :: "event \<Rightarrow> bool" where
  "is_error (Error e) = True"
| "is_error ev = False"

fun is_tool_plan :: "event \<Rightarrow> bool" where
  "is_tool_plan (ToolPlan c n) = True"
| "is_tool_plan ev = False"

fun is_tool_outcome :: "event \<Rightarrow> bool" where
  "is_tool_outcome (ToolEnd tool_id tool_name result) = True"
| "is_tool_outcome (ToolError tool_id error) = True"
| "is_tool_outcome ev = False"

subsection \<open>Agents and states for the examples\<close>

text \<open>
  A library for the examples: its \<open>json.loads\<close> decodes the text \<open>{}\<close> and the text \<open>5\<close>
  and rejects every other text, and its \<open>json.dumps\<close> is right for the empty dictionary,
  which is all the examples need.
\<close>

definition example_lib :: pylib where
  "example_lib =
     \<lparr>json_loads = (\<lambda>s. if s = ascii ''{}'' then Some (PDict [])
                         else if s = ascii ''5'' then Some (PInt 5) else None),
      json_dumps = (\<lambda>v. ascii ''{}''),
      str_other = (\<lambda>v. [])\<rparr>"

text \<open>
  An agent with a scripted model, which answers its \<open>n\<close>-th request with \<open>script n\<close>
  whatever the transcript, and with a given registry. Its library functions are those
  of \<open>example_lib\<close>.
\<close>

definition scripted_agent :: "(nat \<Rightarrow> stream_item list) \<Rightarrow> tool list \<Rightarrow> agent" where
  "scripted_agent script registry =
     \<lparr>json_loads = (\<lambda>s. if s = ascii ''{}'' then Some (PDict [])
                         else if s = ascii ''5'' then Some (PInt 5) else None),
      json_dumps = (\<lambda>v. ascii ''{}''),
      str_other = (\<lambda>v. []),
      astream_events = (\<lambda>n messages. script n),
      tools = registry\<rparr>"

text \<open>The state of a request before anything was yielded, with a given transcript.\<close>

definition start_state :: "message list \<Rightarrow> chat_state" where
  "start_state transcript =
     \<lparr>shared_history = transcript, yielded = [], printed = [], invoked = []\<rparr>"

text \<open>
  The state of \<open>chat_stream\<close> when it enters its loop: the status event was yielded and
  the transcript is built.
\<close>

definition first_state :: "pystr \<Rightarrow> hist_record list \<Rightarrow> chat_state" where
  "first_state user_input history =
     \<lparr>shared_history = build_history history @ [UserMsg user_input],
      yielded = [Status status_text],
      printed = [LogStart (take 50 user_input)],
      invoked = []\<rparr>"

section \<open>Properties of the name sanitizer\<close>

lemma name_char_digit: "d < 10 \<Longrightarrow> name_char (48 + d)"
  by (simp add: name_char_def)

lemma str_of_nat_chars: "list_all name_char (str_of_nat n)"
proof (induction n rule: str_of_nat.induct)
  case (1 n)
  show ?case
    using 1 by (subst str_of_nat.simps) (simp add: name_char_digit)
qed

lemma suffixed_chars: "list_all name_char base \<Longrightarrow> list_all name_char (suffixed base k)"
  by (simp add: suffixed_def str_of_nat_chars name_char_def)

lemma re_sub_name_chars: "list_all name_char (re_sub_name s)"
  by (induction s) (simp_all add: re_sub_name_def name_char_def)

lemma base_name_chars: "list_all name_char (base_name py name)"
  by (simp add: base_name_def Let_def re_sub_name_chars ascii_def name_char_def)

lemma base_name_not_Nil: "base_name py name \<noteq> []"
  by (simp add: base_name_def Let_def ascii_def)

text \<open>What the loop returns, for any loop state.\<close>

lemma uniq_loop_result:
  "uniq_loop used base index s = (i, r) \<Longrightarrow>
     r |\<notin>| used \<and> index \<le> i \<and>
     (if s |\<in>| used
      then index < i \<and> r = suffixed base i \<and> (\<forall>k. index < k \<and> k < i \<longrightarrow> suffixed base k |\<in>| used)
      else i = index \<and> r = s)"
proof (induction used base index s rule: uniq_loop.induct)
  case (1 used base index sanitized)
  show ?case
  proof (cases "sanitized |\<in>| used")
    case False
    with "1.prems" show ?thesis
      by (simp add: uniq_loop.simps [of used base index sanitized])
  next
    case True
    with "1.prems" have rec: "uniq_loop used base (index + 1) (suffixed base (index + 1)) = (i, r)"
      by (simp add: uniq_loop.simps [of used base index sanitized])
    note ih = "1.IH" [OF True rec]
    have fresh: "r |\<notin>| used" and le: "index + 1 \<le> i"
      using ih by blast+
    have r: "r = suffixed base i"
      using ih by (cases "suffixed base (index + 1) |\<in>| used") simp_all
    have below: "suffixed base k |\<in>| used" if k: "index < k" "k < i" for k
    proof (cases "suffixed base (index + 1) |\<in>| used")
      case False
      with ih have "i = index + 1" by simp
      with k show ?thesis by simp
    next
      case yes: True
      show ?thesis
      proof (cases "k = index + 1")
        case True
        with yes show ?thesis by simp
      next
        case False
        with k have "index + 1 < k \<and> k < i" by simp
        with ih yes show ?thesis by simp
      qed
    qed
    from le have "index < i" by simp
    with True fresh le r below show ?thesis
      by simp
  qed
qed

lemma sanitize_result:
  assumes "sanitize_and_uniq_tool_name py used name = (r, used')"
  shows "r \<noteq> [] \<and> list_all name_char r \<and> r |\<notin>| used \<and> used' = finsert r used \<and>
    (if base_name py name |\<in>| used
     then \<exists>k\<ge>2. r = suffixed (base_name py name) k \<and>
            (\<forall>j. 2 \<le> j \<and> j < k \<longrightarrow> suffixed (base_name py name) j |\<in>| used)
     else r = base_name py name)"
proof -
  obtain i where loop: "uniq_loop used (base_name py name) 1 (base_name py name) = (i, r)"
    and used': "used' = finsert r used"
    using assms by (auto simp: sanitize_and_uniq_tool_name_def Let_def split: prod.splits)
  note res = uniq_loop_result [OF loop]
  show ?thesis
  proof (cases "base_name py name |\<in>| used")
    case False
    with res used' show ?thesis
      by (simp add: base_name_not_Nil base_name_chars)
  next
    case True
    with res have r: "r = suffixed (base_name py name) i" and i: "1 < i"
      and below: "\<forall>k. 1 < k \<and> k < i \<longrightarrow> suffixed (base_name py name) k |\<in>| used"
      and fresh: "r |\<notin>| used"
      by (auto simp del: One_nat_def)
    have "r \<noteq> []" using r by (simp add: suffixed_def)
    moreover have "list_all name_char r"
      using r by (simp add: suffixed_chars base_name_chars)
    moreover have "\<exists>k\<ge>2. r = suffixed (base_name py name) k \<and>
            (\<forall>j. 2 \<le> j \<and> j < k \<longrightarrow> suffixed (base_name py name) j |\<in>| used)"
      using r i below by (intro exI [of _ i]) auto
    ultimately show ?thesis
      using True fresh used' by simp
  qed
qed

lemma sanitize_calls_result:
  "sanitize_calls py used names = (rs, used') \<Longrightarrow>
     distinct rs \<and> (\<forall>r\<in>set rs. r |\<notin>| used) \<and> fset used' = fset used \<union> set rs"
proof (induction names arbitrary: used rs used')
  case Nil
  then show ?case by simp
next
  case (Cons name names)
  obtain r used1 where one: "sanitize_and_uniq_tool_name py used name = (r, used1)"
    by (cases "sanitize_and_uniq_tool_name py used name")
  obtain rs1 used2 where rest: "sanitize_calls py used1 names = (rs1, used2)"
    by (cases "sanitize_calls py used1 names")
  from Cons.prems one rest have rs: "rs = r # rs1" and u: "used' = used2"
    by simp_all
  from sanitize_result [OF one] have fresh: "r |\<notin>| used" and u1: "used1 = finsert r used"
    by simp_all
  from Cons.IH [OF rest] have ih: "distinct rs1" "\<forall>x\<in>set rs1. x |\<notin>| used1"
    "fset used2 = fset used1 \<union> set rs1"
    by simp_all
  show ?case
    using rs u fresh u1 ih by auto
qed

text \<open>
  C8. Whatever the raw input, \<open>_sanitize_and_uniq_tool_name\<close> returns a non-empty name
  made of characters of \<open>[A-Za-z0-9_-]\<close> only, a name that was not in use before the call
  and is in use after it. The base is the substituted name, or \<open>"tool"\<close> when the
  substitution leaves nothing (as for the empty string). When the base is free it is
  returned; otherwise the result is the base followed by \<open>_k\<close> for the least \<open>k\<close> from 2
  on whose name is free. Hence the names returned by any sequence of calls on one
  instance are pairwise distinct, whether or not their inputs have the same base.
\<close>

theorem sanitize_and_uniq_tool_name_valid_unique:
  "(let (r, used') = sanitize_and_uniq_tool_name py used name;
        base = base_name py name
    in r \<noteq> [] \<and> list_all name_char r \<and> r |\<notin>| used \<and> used' = finsert r used \<and>
       base = (if re_sub_name (coerce_name py name) = [] then ascii ''tool''
               else re_sub_name (coerce_name py name)) \<and>
       (if base |\<in>| used
        then \<exists>k\<ge>2. r = suffixed base k \<and> (\<forall>j. 2 \<le> j \<and> j < k \<longrightarrow> suffixed base j |\<in>| used)
        else r = base)) \<and>
   base_name py (PStr []) = ascii ''tool'' \<and>
   (let (rs, used'') = sanitize_calls py used names
    in distinct rs \<and> (\<forall>r\<in>set rs. r |\<notin>| used))"
proof -
  obtain r used' where one: "sanitize_and_uniq_tool_name py used name = (r, used')"
    by (cases "sanitize_and_uniq_tool_name py used name")
  obtain rs used'' where many: "sanitize_calls py used names = (rs, used'')"
    by (cases "sanitize_calls py used names")
  have base: "base_name py name =
      (if re_sub_name (coerce_name py name) = [] then ascii ''tool''
       else re_sub_name (coerce_name py name))"
    by (simp add: base_name_def Let_def)
  have empty: "base_name py (PStr []) = ascii ''tool''"
    by (simp add: base_name_def coerce_name_def re_sub_name_def)
  show ?thesis
    unfolding one many Let_def prod.case
    using sanitize_result [OF one] sanitize_calls_result [OF many] base empty
    by blast
qed

theorem sanitize_and_uniq_tool_name_valid_unique_witness:
  "sanitize_and_uniq_tool_name
      \<lparr>json_loads = (\<lambda>s. None), json_dumps = (\<lambda>v. []), str_other = (\<lambda>v. [])\<rparr>
      {|ascii ''a_b''|} (PStr (ascii ''a b'')) = (ascii ''a_b_2'', {|ascii ''a_b_2'', ascii ''a_b''|}) \<and>
   ascii ''a_b_2'' |\<notin>| {|ascii ''a_b''|} \<and>
   distinct (fst (sanitize_calls
      \<lparr>json_loads = (\<lambda>s. None), json_dumps = (\<lambda>v. []), str_other = (\<lambda>v. [])\<rparr>
      {|ascii ''a_b''|} [PStr (ascii ''a b''), PStr (ascii ''a_b''), PStr []])) \<and>
   fst (sanitize_calls
      \<lparr>json_loads = (\<lambda>s. None), json_dumps = (\<lambda>v. []), str_other = (\<lambda>v. [])\<rparr>
      {|ascii ''a_b''|} [PStr (ascii ''a b''), PStr (ascii ''a_b''), PStr []])
     = [ascii ''a_b_2'', ascii ''a_b_3'', ascii ''tool'']"
proof -
  let ?py = "\<lparr>json_loads = (\<lambda>s. None), json_dumps = (\<lambda>v. []), str_other = (\<lambda>v. [])\<rparr>"
  let ?used = "{|ascii ''a_b''|}"
  let ?names = "[PStr (ascii ''a b''), PStr (ascii ''a_b''), PStr []]"
  have one: "sanitize_and_uniq_tool_name ?py ?used (PStr (ascii ''a b''))
      = (ascii ''a_b_2'', {|ascii ''a_b_2'', ascii ''a_b''|})"
    by (simp add: sanitize_and_uniq_tool_name_def base_name_def coerce_name_def re_sub_name_def
        name_char_def ascii_def uniq_loop.simps suffixed_def str_of_nat.simps Let_def)
  obtain u where many: "sanitize_calls ?py ?used ?names
      = ([ascii ''a_b_2'', ascii ''a_b_3'', ascii ''tool''], u)"
    by (simp add: sanitize_and_uniq_tool_name_def base_name_def coerce_name_def re_sub_name_def
        name_char_def ascii_def uniq_loop.simps suffixed_def str_of_nat.simps Let_def)
  have "ascii ''a_b_2'' |\<notin>| ?used \<and> distinct (fst (sanitize_calls ?py ?used ?names))"
    using sanitize_and_uniq_tool_name_valid_unique [of ?py ?used "PStr (ascii ''a b'')" ?names]
    unfolding one many Let_def prod.case fst_conv
    by blast
  with one many show ?thesis
    by simp
qed

section \<open>Properties of the configuration file\<close>

text \<open>
  C3, as the code has it. When the configuration file is missing, \<open>load_config\<close>
  returns the empty default configuration and writes it to the file. When the file
  exists but cannot be read or decoded, \<open>load_config\<close> does the same: it returns the empty
  default and writes it to the file, so that the malformed text is overwritten by the
  default, not kept. What is written is stated for a write that succeeds; the default is
  returned however the write goes.
\<close>

theorem load_config_falls_back_and_saves_default:
  assumes "case file_content fs of
             None \<Rightarrow> True
           | Some text \<Rightarrow> \<not> readable fs \<or> json_loads py text = None"
  shows "fst (load_config py fs) = PDict [] \<and>
    (on_write fs = WriteSucceeds \<longrightarrow>
       file_content (fst (snd (load_config py fs))) = Some (json_dumps py (PDict [])) \<and>
       snd (snd (load_config py fs)) = (if file_content fs = None then [] else [LoadFailed])) \<and>
    readable (fst (snd (load_config py fs))) = readable fs \<and>
    on_write (fst (snd (load_config py fs))) = on_write fs"
  using assms
  by (auto simp: load_config_def save_config_def default_config_def
      split: option.splits write_outcome.splits)

text \<open>
  C3 as stated fails in its second half: loading an existing file with the malformed
  text \<open>{oops\<close> writes to the disk, and the file holds \<open>{}\<close> afterwards.
\<close>

theorem load_config_malformed_overwrites_counterexample:
  "json_loads example_lib (ascii ''{oops'') = None \<and>
   file_content (fst (snd (load_config example_lib
      \<lparr>file_content = Some (ascii ''{oops''), readable = True, on_write = WriteSucceeds\<rparr>))) =
     Some (ascii ''{}'') \<and>
   Some (ascii ''{}'') \<noteq> file_content
      \<lparr>file_content = Some (ascii ''{oops''), readable = True, on_write = WriteSucceeds\<rparr>"
  by (simp add: load_config_def save_config_def default_config_def example_lib_def ascii_def)

theorem load_config_falls_back_and_saves_default_witness:
  "json_loads example_lib (ascii ''{oops'') = None \<and>
   load_config example_lib
      \<lparr>file_content = Some (ascii ''{oops''), readable = True, on_write = WriteSucceeds\<rparr> =
     (PDict [],
      \<lparr>file_content = Some (ascii ''{}''), readable = True, on_write = WriteSucceeds\<rparr>,
      [LoadFailed]) \<and>
   load_config example_lib \<lparr>file_content = None, readable = True, on_write = WriteSucceeds\<rparr> =
     (PDict [],
      \<lparr>file_content = Some (ascii ''{}''), readable = True, on_write = WriteSucceeds\<rparr>,
      [])"
proof -
  let ?bad = "\<lparr>file_content = Some (ascii ''{oops''), readable = True, on_write = WriteSucceeds\<rparr>"
  let ?none = "\<lparr>file_content = None, readable = True, on_write = WriteSucceeds\<rparr>"
  have mal: "json_loads example_lib (ascii ''{oops'') = None"
    by (simp add: example_lib_def ascii_def)
  then have h1: "case file_content ?bad of
             None \<Rightarrow> True
           | Some text \<Rightarrow> \<not> readable ?bad \<or> json_loads example_lib text = None"
    by simp
  have h2: "case file_content ?none of
             None \<Rightarrow> True
           | Some text \<Rightarrow> \<not> readable ?none \<or> json_loads example_lib text = None"
    by simp
  have d: "json_dumps example_lib (PDict []) = ascii ''{}''"
    by (simp add: example_lib_def)
  have "load_config example_lib ?bad =
     (PDict [],
      \<lparr>file_content = Some (ascii ''{}''), readable = True, on_write = WriteSucceeds\<rparr>,
      [LoadFailed])"
    using load_config_falls_back_and_saves_default [OF h1] d
    by (cases "load_config example_lib ?bad"; cases "fst (snd (load_config example_lib ?bad))") auto
  moreover have "load_config example_lib ?none =
     (PDict [],
      \<lparr>file_content = Some (ascii ''{}''), readable = True, on_write = WriteSucceeds\<rparr>,
      [])"
    using load_config_falls_back_and_saves_default [OF h2] d
    by (cases "load_config example_lib ?none"; cases "fst (snd (load_config example_lib ?none))") auto
  ultimately show ?thesis
    using mal by blast
qed

section \<open>Properties of the streaming loop\<close>

subsection \<open>State updates\<close>

lemma yield_fields [simp]:
  "yielded (yield e st) = yielded st @ [e]"
  "shared_history (yield e st) = shared_history st"
  "printed (yield e st) = printed st"
  "invoked (yield e st) = invoked st"
  by (simp_all add: yield_def)

lemma print_fields [simp]:
  "yielded (print l st) = yielded st"
  "shared_history (print l st) = shared_history st"
  "printed (print l st) = printed st @ [l]"
  "invoked (print l st) = invoked st"
  by (simp_all add: print_def)

lemma append_history_fields [simp]:
  "yielded (append_history m st) = yielded st"
  "shared_history (append_history m st) = shared_history st @ [m]"
  "printed (append_history m st) = printed st"
  "invoked (append_history m st) = invoked st"
  by (simp_all add: append_history_def)

lemma record_invocation_fields [simp]:
  "yielded (record_invocation nm a st) = yielded st"
  "shared_history (record_invocation nm a st) = shared_history st"
  "printed (record_invocation nm a st) = printed st"
  "invoked (record_invocation nm a st) = invoked st @ [(nm, a)]"
  by (simp_all add: record_invocation_def)

subsection \<open>One intent\<close>

lemma exec_tool_call_yielded:
  "yielded (exec_tool_call ag n i tc st) = yielded st @ intent_events ag n (i, tc)"
  by (simp add: exec_tool_call_def intent_events_def intent_outcome_def intent_id_def
      intent_name_def intent_args_def lookup_tool_def Let_def
      split: prod.splits option.splits sum.splits)

lemma exec_tool_call_history:
  "shared_history (exec_tool_call ag n i tc st) = shared_history st @ [intent_message ag (i, tc)]"
  by (simp add: exec_tool_call_def intent_message_def intent_outcome_def intent_id_def
      intent_name_def intent_args_def lookup_tool_def Let_def
      split: prod.splits option.splits sum.splits)

lemma exec_tool_call_invoked:
  "invoked (exec_tool_call ag n i tc st) = invoked st @ intent_invocations ag (i, tc)"
  by (simp add: exec_tool_call_def intent_invocations_def intent_id_def
      intent_name_def intent_args_def lookup_tool_def Let_def
      split: prod.splits option.splits sum.splits)

lemma exec_tool_call_round_logs:
  "filter is_round_log (printed (exec_tool_call ag n i tc st)) = filter is_round_log (printed st)"
  by (simp add: exec_tool_call_def Let_def split: prod.splits option.splits sum.splits)

subsection \<open>All intents of a round\<close>

lemma exec_tool_calls_yielded:
  "yielded (exec_tool_calls ag n i tcs st) =
     yielded st @ concat (map (intent_events ag n) (enumerate i tcs))"
  by (induction tcs arbitrary: i st) (simp_all add: exec_tool_call_yielded)

lemma exec_tool_calls_history:
  "shared_history (exec_tool_calls ag n i tcs st) =
     shared_history st @ map (intent_message ag) (enumerate i tcs)"
  by (induction tcs arbitrary: i st) (simp_all add: exec_tool_call_history)

lemma exec_tool_calls_invoked:
  "invoked (exec_tool_calls ag n i tcs st) =
     invoked st @ concat (map (intent_invocations ag) (enumerate i tcs))"
  by (induction tcs arbitrary: i st) (simp_all add: exec_tool_call_invoked)

lemma exec_tool_calls_round_logs:
  "filter is_round_log (printed (exec_tool_calls ag n i tcs st)) = filter is_round_log (printed st)"
  by (induction tcs arbitrary: i st) (simp_all add: exec_tool_call_round_logs)

lemma tool_round_yielded:
  "yielded (tool_round ag tcs rv st) =
     yielded st @ ToolPlan (plan_text (length tcs)) (length tcs)
       # concat (map (intent_events ag (length tcs)) (enumerate 1 tcs))"
  by (simp add: tool_round_def Let_def exec_tool_calls_yielded)

lemma tool_round_history:
  "shared_history (tool_round ag tcs rv st) =
     shared_history st @ AssistantToolCalls [] tcs # map (intent_message ag) (enumerate 1 tcs)"
  by (simp add: tool_round_def Let_def exec_tool_calls_history)

lemma tool_round_invoked:
  "invoked (tool_round ag tcs rv st) =
     invoked st @ concat (map (intent_invocations ag) (enumerate 1 tcs))"
  by (simp add: tool_round_def Let_def exec_tool_calls_invoked)


lemma tool_round_round_logs:
  "filter is_round_log (printed (tool_round ag tcs rv st)) = filter is_round_log (printed st)"
  by (simp add: tool_round_def Let_def exec_tool_calls_round_logs)

subsection \<open>The stream\<close>

lemma content_pieces_chunk [simp]:
  "content_pieces (Event (OnChatModelStream (Some c)) # rest) =
     (case chunk_content c of
        Some p \<Rightarrow> (if p \<noteq> [] then p # content_pieces rest else content_pieces rest)
      | None \<Rightarrow> content_pieces rest)"
  by (cases c; cases "chunk_content c") simp_all

lemma consume_stream_buffered:
  "buffered_chunks (fst (consume_stream s rv st)) = buffered_chunks rv @ content_pieces s"
  by (induction s rv st rule: consume_stream.induct) (auto simp: Let_def split: option.splits)

lemma consume_stream_started:
  "response_started (fst (consume_stream s rv st)) \<longleftrightarrow> response_started rv \<or> content_pieces s \<noteq> []"
  by (induction s rv st rule: consume_stream.induct) (auto simp: Let_def split: option.splits)

lemma consume_stream_yielded:
  "yielded (snd (consume_stream s rv st)) =
     yielded st
       @ (if \<not> response_started rv \<and> content_pieces s \<noteq> [] then [AIResponseStart replying_text] else [])
       @ map AIResponseChunk (content_pieces s)"
  by (induction s rv st rule: consume_stream.induct) (auto simp: Let_def split: option.splits)

lemma consume_stream_history:
  "shared_history (snd (consume_stream s rv st)) = shared_history st"
  by (induction s rv st rule: consume_stream.induct) (auto simp: Let_def split: option.splits)

lemma consume_stream_invoked:
  "invoked (snd (consume_stream s rv st)) = invoked st"
  by (induction s rv st rule: consume_stream.induct) (auto simp: Let_def split: option.splits)

lemma consume_stream_round_logs:
  "filter is_round_log (printed (snd (consume_stream s rv st))) = filter is_round_log (printed st)"
  by (induction s rv st rule: consume_stream.induct) (auto simp: Let_def split: option.splits)

text \<open>A stream that raises leaves no decision.\<close>

lemma consume_stream_raises:
  "\<not> no_raise s \<Longrightarrow>
     tool_calls_check (fst (consume_stream s rv st)) = None \<and>
     content_preview (fst (consume_stream s rv st)) = []"
  by (induction s rv st rule: consume_stream.induct)
    (auto simp: no_raise_def Let_def split: option.splits)

lemma consume_stream_append:
  "no_raise pre \<Longrightarrow>
     consume_stream (pre @ rest) rv st =
       consume_stream rest (fst (consume_stream pre rv st)) (snd (consume_stream pre rv st))"
  by (induction pre rv st rule: consume_stream.induct)
    (auto simp: no_raise_def Let_def split: option.splits)

lemma consume_stream_end:
  "no_raise pre \<Longrightarrow>
     tool_calls_check (fst (consume_stream (pre @ [Event (OnChatModelEnd out)]) rv st)) =
       (case out of Some output \<Rightarrow> out_tool_calls output | None \<Rightarrow> None) \<and>
     content_preview (fst (consume_stream (pre @ [Event (OnChatModelEnd out)]) rv st)) =
       (case out of Some output \<Rightarrow> or_str (out_content output) [] | None \<Rightarrow> [])"
  by (simp add: consume_stream_append)

lemma content_pieces_append:
  "no_raise pre \<Longrightarrow> content_pieces (pre @ rest) = content_pieces pre @ content_pieces rest"
  by (induction pre rule: content_pieces.induct) (simp_all add: no_raise_def)

lemma content_pieces_raise:
  "no_raise pre \<Longrightarrow> content_pieces (pre @ Raises e # rest) = content_pieces pre"
  by (simp add: content_pieces_append)

lemma tool_call_streamD:
  assumes "tool_call_stream s"
  obtains pre tc tcs c where
    "s = pre @ [Event (OnChatModelEnd (Some (Output (Some (tc # tcs)) c)))]" "no_raise pre"
proof -
  from assms have ne: "s \<noteq> []" and nr: "no_raise (butlast s)"
    and l: "(case last s of
        Event (OnChatModelEnd (Some output)) \<Rightarrow>
          (case out_tool_calls output of Some (tc # tcs) \<Rightarrow> True | _ \<Rightarrow> False)
      | _ \<Rightarrow> False)"
    by (simp_all add: tool_call_stream_def)
  from l obtain tc tcs c where "last s = Event (OnChatModelEnd (Some (Output (Some (tc # tcs)) c)))"
    by (auto split: stream_item.splits model_event.splits option.splits list.splits
        elim!: model_output.exhaust_sel) (metis model_output.collapse)
  with ne have "s = butlast s @ [Event (OnChatModelEnd (Some (Output (Some (tc # tcs)) c)))]"
    by (metis append_butlast_last_id)
  with nr that show thesis
    by blast
qed

subsection \<open>A round\<close>

lemma round_stream_history [simp]:
  "shared_history (snd (round_stream ag i st)) = shared_history st"
  by (simp add: round_stream_def consume_stream_history)

lemma round_stream_invoked [simp]:
  "invoked (snd (round_stream ag i st)) = invoked st"
  by (simp add: round_stream_def consume_stream_invoked)

lemma round_stream_yielded:
  "yielded (snd (round_stream ag i st)) =
     yielded st
       @ (if content_pieces (astream_events ag i (shared_history st)) \<noteq> []
          then [AIResponseStart replying_text] else [])
       @ map AIResponseChunk (content_pieces (astream_events ag i (shared_history st)))"
  by (simp add: round_stream_def consume_stream_yielded init_round_vars_def)

lemma round_stream_buffered:
  "buffered_chunks (fst (round_stream ag i st)) = content_pieces (astream_events ag i (shared_history st))"
  by (simp add: round_stream_def consume_stream_buffered init_round_vars_def)

lemma round_stream_started:
  "response_started (fst (round_stream ag i st)) \<longleftrightarrow>
     content_pieces (astream_events ag i (shared_history st)) \<noteq> []"
  by (simp add: round_stream_def consume_stream_started init_round_vars_def)

lemma round_stream_round_logs:
  "filter is_round_log (printed (snd (round_stream ag i st))) =
     filter is_round_log (printed st) @ [LogRound i]"
  by (simp add: round_stream_def consume_stream_round_logs)

lemma round_stream_end:
  assumes "astream_events ag i (shared_history st) = pre @ [Event (OnChatModelEnd out)]"
    and "no_raise pre"
  shows "tool_calls_check (fst (round_stream ag i st)) =
       (case out of Some output \<Rightarrow> out_tool_calls output | None \<Rightarrow> None)"
    and "content_preview (fst (round_stream ag i st)) =
       (case out of Some output \<Rightarrow> or_str (out_content output) [] | None \<Rightarrow> [])"
  using consume_stream_end [OF assms(2), of out init_round_vars "print (LogRound i) st"]
  by (simp_all add: round_stream_def assms(1))

lemma round_stream_raises:
  assumes "astream_events ag i (shared_history st) = pre @ Raises e # rest"
  shows "tool_calls_check (fst (round_stream ag i st)) = None"
    and "content_preview (fst (round_stream ag i st)) = []"
  using consume_stream_raises [of "pre @ Raises e # rest" init_round_vars "print (LogRound i) st"]
  by (simp_all add: round_stream_def assms no_raise_def)

lemma chat_round_tool:
  assumes "tool_calls_check (fst (round_stream ag i st)) = Some (tc # tcs)"
  shows "chat_round ag i st =
     (True, tool_round ag (tc # tcs) (fst (round_stream ag i st)) (snd (round_stream ag i st)))"
  using assms by (simp add: chat_round_def case_prod_unfold Let_def)

lemma chat_round_final:
  assumes "tool_calls_check (fst (round_stream ag i st)) = None \<or>
     tool_calls_check (fst (round_stream ag i st)) = Some []"
  shows "chat_round ag i st =
     (False, finish_round (fst (round_stream ag i st)) (snd (round_stream ag i st)))"
  using assms by (auto simp: chat_round_def case_prod_unfold Let_def)

lemma chat_round_cases:
  "chat_round ag i st =
     (False, finish_round (fst (round_stream ag i st)) (snd (round_stream ag i st))) \<or>
   (\<exists>tcs. chat_round ag i st =
     (True, tool_round ag tcs (fst (round_stream ag i st)) (snd (round_stream ag i st))))"
  by (auto simp: chat_round_def case_prod_unfold Let_def split: option.splits list.splits)

lemma finish_round_fields [simp]:
  "shared_history (finish_round rv st) = shared_history st"
  "invoked (finish_round rv st) = invoked st"
  "filter is_round_log (printed (finish_round rv st)) = filter is_round_log (printed st)"
  by (simp_all add: finish_round_def Let_def)

lemma finish_round_yielded:
  "yielded (finish_round rv st) =
     yielded st @
       (if response_started rv then [AIResponseEnd (final_text rv)]
        else AIResponseStart replying_text
          # (if final_text rv \<noteq> [] then [AIResponseChunk (final_text rv)] else [])
          @ [AIResponseEnd (final_text rv)])"
  by (simp add: finish_round_def Let_def)

lemma chat_round_round_logs:
  "filter is_round_log (printed (snd (chat_round ag i st))) =
     filter is_round_log (printed st) @ [LogRound i]"
  using chat_round_cases [of ag i st]
  by (auto simp: tool_round_round_logs round_stream_round_logs)

lemma chat_round_history_prefix:
  "\<exists>ms. shared_history (snd (chat_round ag i st)) = shared_history st @ ms"
  using chat_round_cases [of ag i st]
  by (auto simp: tool_round_history)

subsection \<open>The loop\<close>

lemma rounds_exhausted_fields [simp]:
  "shared_history (rounds_exhausted st) = shared_history st"
  "invoked (rounds_exhausted st) = invoked st"
  "yielded (rounds_exhausted st) = yielded st @
     [AIResponseStart replying_text, AIResponseChunk max_rounds_text, AIResponseEnd max_rounds_text]"
  "printed (rounds_exhausted st) = printed st @ [LogMaxRounds max_rounds]"
  by (simp_all add: rounds_exhausted_def)

lemma chat_loop_history_prefix:
  "\<exists>ms. shared_history (chat_loop ag i st) = shared_history st @ ms"
proof (induction ag i st rule: chat_loop.induct)
  case (1 ag round_index st)
  show ?case
  proof (cases "round_index < max_rounds")
    case False
    then show ?thesis by (simp add: chat_loop.simps [of ag round_index st])
  next
    case lt: True
    obtain ms where ms: "shared_history (snd (chat_round ag (round_index + 1) st)) = shared_history st @ ms"
      using chat_round_history_prefix by blast
    show ?thesis
    proof (cases "fst (chat_round ag (round_index + 1) st)")
      case False
      with lt ms show ?thesis by (simp add: chat_loop.simps [of ag round_index st])
    next
      case True
      from "1.IH" [OF lt True] obtain ms' where
        "shared_history (chat_loop ag (round_index + 1) (snd (chat_round ag (round_index + 1) st)))
          = shared_history (snd (chat_round ag (round_index + 1) st)) @ ms'"
        by blast
      with lt True ms show ?thesis by (simp add: chat_loop.simps [of ag round_index st])
    qed
  qed
qed

lemma chat_loop_rounds_bound:
  "\<exists>k. i + k \<le> max_rounds \<and>
     filter is_round_log (printed (chat_loop ag i st)) =
       filter is_round_log (printed st) @ map LogRound [i + 1..<i + 1 + k]"
  if "i \<le> max_rounds"
  using that
proof (induction ag i st rule: chat_loop.induct)
  case (1 ag round_index st)
  show ?case
  proof (cases "round_index < max_rounds")
    case False
    then have "filter is_round_log (printed (chat_loop ag round_index st)) = filter is_round_log (printed st)"
      by (simp add: chat_loop.simps [of ag round_index st])
    with "1.prems" show ?thesis by (intro exI [of _ 0]) simp
  next
    case lt: True
    let ?st1 = "snd (chat_round ag (round_index + 1) st)"
    have logs1: "filter is_round_log (printed ?st1) = filter is_round_log (printed st) @ [LogRound (round_index + 1)]"
      by (rule chat_round_round_logs)
    show ?thesis
    proof (cases "fst (chat_round ag (round_index + 1) st)")
      case False
      with lt have "chat_loop ag round_index st = ?st1"
        by (simp add: chat_loop.simps [of ag round_index st])
      with logs1 lt show ?thesis by (intro exI [of _ 1]) simp
    next
      case True
      with lt have eq: "chat_loop ag round_index st = chat_loop ag (round_index + 1) ?st1"
        by (simp add: chat_loop.simps [of ag round_index st])
      from lt have "round_index + 1 \<le> max_rounds" by simp
      from "1.IH" [OF lt True this] obtain k where k: "round_index + 1 + k \<le> max_rounds"
        and logs: "filter is_round_log (printed (chat_loop ag (round_index + 1) ?st1)) =
          filter is_round_log (printed ?st1) @ map LogRound [round_index + 1 + 1..<round_index + 1 + 1 + k]"
        by blast
      have "[round_index + 1..<round_index + 1 + (k + 1)] =
          (round_index + 1) # [round_index + 1 + 1..<round_index + 1 + 1 + k]"
        by (simp add: upt_rec)
      with k logs logs1 eq show ?thesis
        by (intro exI [of _ "k + 1"]) simp
    qed
  qed
qed

lemma intent_outcome_is_outcome: "is_tool_outcome (fst (intent_outcome ag i tc))"
  by (simp add: intent_outcome_def split: option.splits sum.splits)

lemma intent_events_no_plan: "filter is_tool_plan (intent_events ag n x) = []"
  using intent_outcome_is_outcome [of ag "fst x" "snd x"]
  by (cases x; cases "fst (intent_outcome ag (fst x) (snd x))") (simp_all add: intent_events_def)

lemma intent_events_no_error: "\<not> list_ex is_error (intent_events ag n x)"
  using intent_outcome_is_outcome [of ag "fst x" "snd x"]
  by (cases x; cases "fst (intent_outcome ag (fst x) (snd x))") (simp_all add: intent_events_def)

lemma all_intent_events_no_plan: "filter is_tool_plan (concat (map (intent_events ag n) xs)) = []"
  by (induction xs) (simp_all add: intent_events_no_plan)

lemma all_intent_events_no_error: "\<not> list_ex is_error (concat (map (intent_events ag n) xs))"
  by (induction xs) (simp_all add: intent_events_no_error)

lemma chunks_no_plan: "filter is_tool_plan (map AIResponseChunk ps) = []"
  by (induction ps) simp_all

lemma chunks_no_error: "\<not> list_ex is_error (map AIResponseChunk ps)"
  by (induction ps) simp_all

lemma exec_tool_call_conflict_logs:
  "filter is_conflict_log (printed (exec_tool_call ag n i tc st)) = filter is_conflict_log (printed st)"
  by (simp add: exec_tool_call_def Let_def split: prod.splits option.splits sum.splits)

lemma exec_tool_calls_conflict_logs:
  "filter is_conflict_log (printed (exec_tool_calls ag n i tcs st)) = filter is_conflict_log (printed st)"
  by (induction tcs arbitrary: i st) (simp_all add: exec_tool_call_conflict_logs)

lemma tool_round_conflict_logs:
  "filter is_conflict_log (printed (tool_round ag tcs rv st)) =
     filter is_conflict_log (printed st) @ (if response_started rv then [LogConflict] else [])"
  by (simp add: tool_round_def Let_def exec_tool_calls_conflict_logs)

lemma consume_stream_conflict_logs:
  "filter is_conflict_log (printed (snd (consume_stream s rv st))) = filter is_conflict_log (printed st)"
  by (induction s rv st rule: consume_stream.induct) (auto simp: Let_def split: option.splits)

lemma round_stream_conflict_logs:
  "filter is_conflict_log (printed (snd (round_stream ag i st))) = filter is_conflict_log (printed st)"
  by (simp add: round_stream_def consume_stream_conflict_logs)

lemma content_pieces_end [simp]:
  "no_raise pre \<Longrightarrow> content_pieces (pre @ [Event (OnChatModelEnd out)]) = content_pieces pre"
  by (simp add: content_pieces_append)

text \<open>A round whose stream ends by reporting intents.\<close>

lemma tool_stream_round:
  assumes s: "astream_events ag i (shared_history st) =
      pre @ [Event (OnChatModelEnd (Some (Output (Some (tc # tcs)) c)))]"
    and nr: "no_raise pre"
  shows "chat_round ag i st =
      (True, tool_round ag (tc # tcs) (fst (round_stream ag i st)) (snd (round_stream ag i st)))"
    and "yielded (snd (chat_round ag i st)) =
      yielded st
        @ (if content_pieces pre \<noteq> []
           then AIResponseStart replying_text # map AIResponseChunk (content_pieces pre) else [])
        @ ToolPlan (plan_text (length (tc # tcs))) (length (tc # tcs))
        # concat (map (intent_events ag (length (tc # tcs))) (enumerate 1 (tc # tcs)))"
    and "shared_history (snd (chat_round ag i st)) =
      shared_history st @ AssistantToolCalls [] (tc # tcs)
        # map (intent_message ag) (enumerate 1 (tc # tcs))"
    and "invoked (snd (chat_round ag i st)) =
      invoked st @ concat (map (intent_invocations ag) (enumerate 1 (tc # tcs)))"
    and "filter is_conflict_log (printed (snd (chat_round ag i st))) =
      filter is_conflict_log (printed st) @ (if content_pieces pre \<noteq> [] then [LogConflict] else [])"
proof -
  have check: "tool_calls_check (fst (round_stream ag i st)) = Some (tc # tcs)"
    using round_stream_end(1) [OF s nr] by simp
  show r: "chat_round ag i st =
      (True, tool_round ag (tc # tcs) (fst (round_stream ag i st)) (snd (round_stream ag i st)))"
    by (rule chat_round_tool [OF check])
  show "yielded (snd (chat_round ag i st)) =
      yielded st
        @ (if content_pieces pre \<noteq> []
           then AIResponseStart replying_text # map AIResponseChunk (content_pieces pre) else [])
        @ ToolPlan (plan_text (length (tc # tcs))) (length (tc # tcs))
        # concat (map (intent_events ag (length (tc # tcs))) (enumerate 1 (tc # tcs)))"
    by (simp only: r snd_conv tool_round_yielded round_stream_yielded s content_pieces_end [OF nr])
      simp
  show "shared_history (snd (chat_round ag i st)) =
      shared_history st @ AssistantToolCalls [] (tc # tcs)
        # map (intent_message ag) (enumerate 1 (tc # tcs))"
    by (simp only: r snd_conv tool_round_history round_stream_history)
  show "invoked (snd (chat_round ag i st)) =
      invoked st @ concat (map (intent_invocations ag) (enumerate 1 (tc # tcs)))"
    by (simp only: r snd_conv tool_round_invoked round_stream_invoked)
  show "filter is_conflict_log (printed (snd (chat_round ag i st))) =
      filter is_conflict_log (printed st) @ (if content_pieces pre \<noteq> [] then [LogConflict] else [])"
    by (simp only: r snd_conv tool_round_conflict_logs round_stream_conflict_logs
        round_stream_started s content_pieces_end [OF nr])
qed

lemma chat_loop_continue:
  "round_index < max_rounds \<Longrightarrow> fst (chat_round ag (round_index + 1) st) \<Longrightarrow>
     chat_loop ag round_index st = chat_loop ag (round_index + 1) (snd (chat_round ag (round_index + 1) st))"
  by (simp add: chat_loop.simps [of ag round_index st])

lemma chat_loop_return:
  "round_index < max_rounds \<Longrightarrow> \<not> fst (chat_round ag (round_index + 1) st) \<Longrightarrow>
     chat_loop ag round_index st = snd (chat_round ag (round_index + 1) st)"
  by (simp add: chat_loop.simps [of ag round_index st])

lemma chat_loop_exhausted:
  "\<not> round_index < max_rounds \<Longrightarrow> chat_loop ag round_index st = rounds_exhausted st"
  by (simp add: chat_loop.simps [of ag round_index st])

subsection \<open>Tool calls reported after text was streamed\<close>

text \<open>
  C1. When the last event of a round's stream reports one or more tool-call intents, the
  round is a tool round, also when content fragments were forwarded before: the loop
  goes on to the next round, the transcript gains the assistant entry with the intents
  and one tool entry for each intent, every intent whose tool is registered is invoked,
  and the events are the forwarded fragments followed by the plan and the events of the
  intents. The only trace of the conflict is the warning, printed exactly when
  fragments were forwarded.
\<close>

theorem tool_calls_win_over_streamed_text:
  assumes "astream_events ag (round_index + 1) (shared_history st) =
      pre @ [Event (OnChatModelEnd (Some (Output (Some (tc # tcs)) c)))]"
    and "no_raise pre"
    and "round_index < max_rounds"
  shows "fst (chat_round ag (round_index + 1) st) \<and>
    chat_loop ag round_index st =
      chat_loop ag (round_index + 1) (snd (chat_round ag (round_index + 1) st)) \<and>
    shared_history (snd (chat_round ag (round_index + 1) st)) =
      shared_history st @ AssistantToolCalls [] (tc # tcs)
        # map (intent_message ag) (enumerate 1 (tc # tcs)) \<and>
    invoked (snd (chat_round ag (round_index + 1) st)) =
      invoked st @ concat (map (intent_invocations ag) (enumerate 1 (tc # tcs))) \<and>
    yielded (snd (chat_round ag (round_index + 1) st)) =
      yielded st
        @ (if content_pieces pre \<noteq> []
           then AIResponseStart replying_text # map AIResponseChunk (content_pieces pre) else [])
        @ ToolPlan (plan_text (length (tc # tcs))) (length (tc # tcs))
        # concat (map (intent_events ag (length (tc # tcs))) (enumerate 1 (tc # tcs))) \<and>
    filter is_conflict_log (printed (snd (chat_round ag (round_index + 1) st))) =
      filter is_conflict_log (printed st) @ (if content_pieces pre \<noteq> [] then [LogConflict] else [])"
proof -
  note r = tool_stream_round [OF assms(1,2)]
  from r(1) have go: "fst (chat_round ag (round_index + 1) st)"
    by simp
  from chat_loop_continue [OF assms(3) go] go r(2-5) show ?thesis
    by blast
qed

theorem tool_calls_win_over_streamed_text_witness:
  "no_raise [Event (OnChatModelStream (Some (Chunk (Some (ascii ''Hi'')))))] \<and>
   (0::nat) < max_rounds \<and>
   fst (chat_round
     (scripted_agent
       (\<lambda>n. [Event (OnChatModelStream (Some (Chunk (Some (ascii ''Hi''))))),
             Event (OnChatModelEnd (Some (Output
               (Some [ObjCall (Some (ascii ''c1'')) (Some (ascii ''echo'')) None]) None)))])
       [Tool (ascii ''echo'') (\<lambda>args. Inr (ascii ''ok''))])
     (0 + 1) (start_state [UserMsg (ascii ''q'')])) \<and>
   shared_history (snd (chat_round
     (scripted_agent
       (\<lambda>n. [Event (OnChatModelStream (Some (Chunk (Some (ascii ''Hi''))))),
             Event (OnChatModelEnd (Some (Output
               (Some [ObjCall (Some (ascii ''c1'')) (Some (ascii ''echo'')) None]) None)))])
       [Tool (ascii ''echo'') (\<lambda>args. Inr (ascii ''ok''))])
     (0 + 1) (start_state [UserMsg (ascii ''q'')]))) =
     [UserMsg (ascii ''q''),
      AssistantToolCalls [] [ObjCall (Some (ascii ''c1'')) (Some (ascii ''echo'')) None],
      ToolMsg (ascii ''c1'') (ascii ''echo'') (ascii ''ok'')] \<and>
   invoked (snd (chat_round
     (scripted_agent
       (\<lambda>n. [Event (OnChatModelStream (Some (Chunk (Some (ascii ''Hi''))))),
             Event (OnChatModelEnd (Some (Output
               (Some [ObjCall (Some (ascii ''c1'')) (Some (ascii ''echo'')) None]) None)))])
       [Tool (ascii ''echo'') (\<lambda>args. Inr (ascii ''ok''))])
     (0 + 1) (start_state [UserMsg (ascii ''q'')]))) = [(ascii ''echo'', PDict [])]"
proof -
  let ?tc = "ObjCall (Some (ascii ''c1'')) (Some (ascii ''echo'')) None"
  let ?pre = "[Event (OnChatModelStream (Some (Chunk (Some (ascii ''Hi'')))))]"
  let ?ag = "scripted_agent
       (\<lambda>n. [Event (OnChatModelStream (Some (Chunk (Some (ascii ''Hi''))))),
             Event (OnChatModelEnd (Some (Output (Some [?tc]) None)))])
       [Tool (ascii ''echo'') (\<lambda>args. Inr (ascii ''ok''))]"
  let ?st = "start_state [UserMsg (ascii ''q'')]"
  have h1: "astream_events ?ag (0 + 1) (shared_history ?st) =
      ?pre @ [Event (OnChatModelEnd (Some (Output (Some (?tc # [])) None)))]"
    by (simp add: scripted_agent_def)
  have h2: "no_raise ?pre"
    by (simp add: no_raise_def)
  have h3: "(0::nat) < max_rounds"
    by (simp add: max_rounds_def)
  have msg: "intent_message ?ag (1, ?tc) = ToolMsg (ascii ''c1'') (ascii ''echo'') (ascii ''ok'')"
    by (simp add: intent_message_def intent_outcome_def intent_id_def intent_name_def
        intent_args_def lookup_tool_def scripted_agent_def or_str_def or_val_def parse_args_def
        ascii_def)
  have inv: "intent_invocations ?ag (1, ?tc) = [(ascii ''echo'', PDict [])]"
    by (simp add: intent_invocations_def intent_name_def intent_args_def lookup_tool_def
        scripted_agent_def or_str_def or_val_def parse_args_def ascii_def)
  from tool_calls_win_over_streamed_text [OF h1 h2 h3]
  have "fst (chat_round ?ag (0 + 1) ?st)"
    and "shared_history (snd (chat_round ?ag (0 + 1) ?st)) =
      shared_history ?st @ AssistantToolCalls [] [?tc] # map (intent_message ?ag) (enumerate 1 [?tc])"
    and "invoked (snd (chat_round ?ag (0 + 1) ?st)) =
      invoked ?st @ concat (map (intent_invocations ?ag) (enumerate 1 [?tc]))"
    by blast+
  with h2 h3 msg inv show ?thesis
    by (simp add: start_state_def)
qed

subsection \<open>A stream that raises\<close>

lemma consume_stream_raise_logged:
  "no_raise pre \<Longrightarrow>
     LogStreamFailed e \<in> set (printed (snd (consume_stream (pre @ Raises e # rest) rv st)))"
  by (simp add: consume_stream_append)

lemma finish_round_printed_mono:
  "l \<in> set (printed st) \<Longrightarrow> l \<in> set (printed (finish_round rv st))"
  by (simp add: finish_round_def Let_def)

text \<open>A round whose stream raises.\<close>

lemma raising_stream_round:
  assumes s: "astream_events ag i (shared_history st) = pre @ Raises e # rest"
    and nr: "no_raise pre"
  shows "chat_round ag i st =
      (False, finish_round (fst (round_stream ag i st)) (snd (round_stream ag i st)))"
    and "final_text (fst (round_stream ag i st)) = concat (content_pieces pre)"
    and "response_started (fst (round_stream ag i st)) \<longleftrightarrow> content_pieces pre \<noteq> []"
    and "yielded (snd (round_stream ag i st)) =
      yielded st
        @ (if content_pieces pre \<noteq> []
           then AIResponseStart replying_text # map AIResponseChunk (content_pieces pre) else [])"
    and "LogStreamFailed e \<in> set (printed (snd (chat_round ag i st)))"
proof -
  have check: "tool_calls_check (fst (round_stream ag i st)) = None"
    and prev: "content_preview (fst (round_stream ag i st)) = []"
    using round_stream_raises [OF s] by simp_all
  have buf: "buffered_chunks (fst (round_stream ag i st)) = content_pieces pre"
    by (simp add: round_stream_buffered s content_pieces_raise [OF nr])
  show r: "chat_round ag i st =
      (False, finish_round (fst (round_stream ag i st)) (snd (round_stream ag i st)))"
    by (rule chat_round_final) (simp add: check)
  show "final_text (fst (round_stream ag i st)) = concat (content_pieces pre)"
    by (simp add: final_text_def buf prev)
  show "response_started (fst (round_stream ag i st)) \<longleftrightarrow> content_pieces pre \<noteq> []"
    by (simp add: round_stream_started s content_pieces_raise [OF nr])
  show "yielded (snd (round_stream ag i st)) =
      yielded st
        @ (if content_pieces pre \<noteq> []
           then AIResponseStart replying_text # map AIResponseChunk (content_pieces pre) else [])"
    by (simp add: round_stream_yielded s content_pieces_raise [OF nr])
  have "LogStreamFailed e \<in> set (printed (snd (round_stream ag i st)))"
    by (simp only: round_stream_def s consume_stream_raise_logged [OF nr])
  then show "LogStreamFailed e \<in> set (printed (snd (chat_round ag i st)))"
    by (simp only: r snd_conv finish_round_printed_mono)
qed

text \<open>
  C2, as the code has it. When opening or reading the stream of a round raises, the
  exception is caught in the round and only printed: the round has no tool calls, the
  transcript is unchanged, no tool is invoked, and the loop returns with this round as
  a round without tools. The final text is the concatenation of the content fragments
  forwarded before the exception, not the empty text: it is empty only when none was
  forwarded, and then the round yields the start event and an end event with the empty
  text.
\<close>

theorem stream_exception_ends_with_streamed_text:
  assumes "astream_events ag (round_index + 1) (shared_history st) = pre @ Raises e # rest"
    and "no_raise pre"
    and "round_index < max_rounds"
  shows "\<not> fst (chat_round ag (round_index + 1) st) \<and>
    chat_loop ag round_index st = snd (chat_round ag (round_index + 1) st) \<and>
    shared_history (snd (chat_round ag (round_index + 1) st)) = shared_history st \<and>
    invoked (snd (chat_round ag (round_index + 1) st)) = invoked st \<and>
    LogStreamFailed e \<in> set (printed (snd (chat_round ag (round_index + 1) st))) \<and>
    yielded (snd (chat_round ag (round_index + 1) st)) =
      yielded st
        @ (if content_pieces pre = []
           then [AIResponseStart replying_text, AIResponseEnd []]
           else AIResponseStart replying_text # map AIResponseChunk (content_pieces pre)
             @ [AIResponseEnd (concat (content_pieces pre))])"
proof -
  note r = raising_stream_round [OF assms(1,2)]
  from r(1) have stop: "\<not> fst (chat_round ag (round_index + 1) st)"
    by simp
  have y: "yielded (snd (chat_round ag (round_index + 1) st)) =
      yielded st
        @ (if content_pieces pre = []
           then [AIResponseStart replying_text, AIResponseEnd []]
           else AIResponseStart replying_text # map AIResponseChunk (content_pieces pre)
             @ [AIResponseEnd (concat (content_pieces pre))])"
    by (simp only: r(1) snd_conv finish_round_yielded r(2) r(3) r(4)) simp
  have h: "shared_history (snd (chat_round ag (round_index + 1) st)) = shared_history st"
    and v: "invoked (snd (chat_round ag (round_index + 1) st)) = invoked st"
    by (simp_all only: r(1) snd_conv finish_round_fields round_stream_history round_stream_invoked)
  from chat_loop_return [OF assms(3) stop] stop h v r(5) y show ?thesis
    by blast
qed

text \<open>
  C2 as stated fails: a stream that forwards the fragment \<open>Hi\<close> and then raises ends with
  an end event that carries \<open>Hi\<close>, not the empty text.
\<close>

theorem stream_exception_after_text_counterexample:
  "yielded (chat_stream
      (scripted_agent
        (\<lambda>n. [Event (OnChatModelStream (Some (Chunk (Some (ascii ''Hi''))))),
              Raises (ascii ''boom'')])
        [])
      (ascii ''q'') []) =
     [Status status_text, AIResponseStart replying_text, AIResponseChunk (ascii ''Hi''),
      AIResponseEnd (ascii ''Hi'')] \<and>
   AIResponseEnd (ascii ''Hi'') \<noteq> AIResponseEnd []"
  by (simp add: chat_stream_def chat_loop.simps [of _ 0] max_rounds_def chat_round_def
      round_stream_def scripted_agent_def init_round_vars_def finish_round_def final_text_def
      yield_def print_def Let_def ascii_def)

theorem stream_exception_ends_with_streamed_text_witness:
  "no_raise [Event (OnChatModelStream (Some (Chunk (Some (ascii ''Hi'')))))] \<and>
   (0::nat) < max_rounds \<and>
   \<not> fst (chat_round
      (scripted_agent
        (\<lambda>n. [Event (OnChatModelStream (Some (Chunk (Some (ascii ''Hi''))))),
              Raises (ascii ''boom'')])
        [])
      (0 + 1) (start_state [UserMsg (ascii ''q'')])) \<and>
   yielded (snd (chat_round
      (scripted_agent
        (\<lambda>n. [Event (OnChatModelStream (Some (Chunk (Some (ascii ''Hi''))))),
              Raises (ascii ''boom'')])
        [])
      (0 + 1) (start_state [UserMsg (ascii ''q'')]))) =
     [AIResponseStart replying_text, AIResponseChunk (ascii ''Hi''), AIResponseEnd (ascii ''Hi'')]"
proof -
  let ?pre = "[Event (OnChatModelStream (Some (Chunk (Some (ascii ''Hi'')))))]"
  let ?ag = "scripted_agent
        (\<lambda>n. [Event (OnChatModelStream (Some (Chunk (Some (ascii ''Hi''))))),
              Raises (ascii ''boom'')])
        []"
  let ?st = "start_state [UserMsg (ascii ''q'')]"
  have h1: "astream_events ?ag (0 + 1) (shared_history ?st) = ?pre @ Raises (ascii ''boom'') # []"
    by (simp add: scripted_agent_def)
  have h2: "no_raise ?pre"
    by (simp add: no_raise_def)
  have h3: "(0::nat) < max_rounds"
    by (simp add: max_rounds_def)
  have ne: "ascii ''Hi'' \<noteq> []"
    by (simp add: ascii_def)
  from stream_exception_ends_with_streamed_text [OF h1 h2 h3]
  have "\<not> fst (chat_round ?ag (0 + 1) ?st)"
    and "yielded (snd (chat_round ?ag (0 + 1) ?st)) =
      yielded ?st
        @ (if content_pieces ?pre = []
           then [AIResponseStart replying_text, AIResponseEnd []]
           else AIResponseStart replying_text # map AIResponseChunk (content_pieces ?pre)
             @ [AIResponseEnd (concat (content_pieces ?pre))])"
    by blast+
  with h2 h3 ne show ?thesis
    by (simp add: start_state_def)
qed

text \<open>
  C10. When the stream raises after content fragments were forwarded, the round ends
  by yielding one more event only, the end event with the concatenation of exactly the
  fragments received before the exception: all in all the start event, one chunk for
  each of these fragments and the end event. What the stream would have carried after
  the exception is never read.
\<close>

theorem stream_exception_keeps_partial_text:
  assumes "astream_events ag round_index (shared_history st) = pre @ Raises e # rest"
    and "no_raise pre"
    and "content_pieces pre \<noteq> []"
  shows "chat_round ag round_index st =
      (False, yield (AIResponseEnd (concat (content_pieces pre))) (snd (round_stream ag round_index st))) \<and>
    yielded (snd (round_stream ag round_index st)) =
      yielded st @ AIResponseStart replying_text # map AIResponseChunk (content_pieces pre) \<and>
    yielded (snd (chat_round ag round_index st)) =
      yielded st @ AIResponseStart replying_text # map AIResponseChunk (content_pieces pre)
        @ [AIResponseEnd (concat (content_pieces pre))]"
proof -
  note r = raising_stream_round [OF assms(1,2)]
  have fin: "finish_round (fst (round_stream ag round_index st)) (snd (round_stream ag round_index st)) =
      yield (AIResponseEnd (concat (content_pieces pre))) (snd (round_stream ag round_index st))"
    using r(2) r(3) assms(3) by (simp add: finish_round_def)
  from r(1) fin r(4) assms(3) show ?thesis
    by simp
qed

theorem stream_exception_keeps_partial_text_witness:
  "no_raise [Event (OnChatModelStream (Some (Chunk (Some (ascii ''Hel''))))),
             Event (OnChatModelStream (Some (Chunk (Some (ascii ''lo'')))))] \<and>
   content_pieces [Event (OnChatModelStream (Some (Chunk (Some (ascii ''Hel''))))),
             Event (OnChatModelStream (Some (Chunk (Some (ascii ''lo'')))))] = [ascii ''Hel'', ascii ''lo''] \<and>
   yielded (snd (chat_round
      (scripted_agent
        (\<lambda>n. [Event (OnChatModelStream (Some (Chunk (Some (ascii ''Hel''))))),
              Event (OnChatModelStream (Some (Chunk (Some (ascii ''lo''))))),
              Raises (ascii ''boom''),
              Event (OnChatModelStream (Some (Chunk (Some (ascii ''!'')))))])
        [])
      1 (start_state [UserMsg (ascii ''q'')]))) =
     [AIResponseStart replying_text, AIResponseChunk (ascii ''Hel''), AIResponseChunk (ascii ''lo''),
      AIResponseEnd (ascii ''Hello'')]"
proof -
  let ?pre = "[Event (OnChatModelStream (Some (Chunk (Some (ascii ''Hel''))))),
             Event (OnChatModelStream (Some (Chunk (Some (ascii ''lo'')))))]"
  let ?rest = "[Event (OnChatModelStream (Some (Chunk (Some (ascii ''!'')))))]"
  let ?ag = "scripted_agent
        (\<lambda>n. [Event (OnChatModelStream (Some (Chunk (Some (ascii ''Hel''))))),
              Event (OnChatModelStream (Some (Chunk (Some (ascii ''lo''))))),
              Raises (ascii ''boom''),
              Event (OnChatModelStream (Some (Chunk (Some (ascii ''!'')))))])
        []"
  let ?st = "start_state [UserMsg (ascii ''q'')]"
  have h1: "astream_events ?ag 1 (shared_history ?st) = ?pre @ Raises (ascii ''boom'') # ?rest"
    by (simp add: scripted_agent_def)
  have h2: "no_raise ?pre"
    by (simp add: no_raise_def)
  have cp: "content_pieces ?pre = [ascii ''Hel'', ascii ''lo'']"
    by (simp add: ascii_def)
  then have h3: "content_pieces ?pre \<noteq> []"
    by simp
  from stream_exception_keeps_partial_text [OF h1 h2 h3]
  have "yielded (snd (chat_round ?ag 1 ?st)) =
      yielded ?st @ AIResponseStart replying_text # map AIResponseChunk (content_pieces ?pre)
        @ [AIResponseEnd (concat (content_pieces ?pre))]"
    by blast
  with h2 cp show ?thesis
    by (simp add: start_state_def ascii_def)
qed

subsection \<open>A stream of content only\<close>

lemma no_raise_fragments: "no_raise (fragments frags)"
  by (induction frags) (simp_all add: fragments_def no_raise_def)

lemma content_pieces_fragments:
  "\<forall>f\<in>set frags. f \<noteq> [] \<Longrightarrow> content_pieces (fragments frags) = frags"
  by (induction frags) (simp_all add: fragments_def)

lemma chat_stream_loop: "chat_stream ag user_input history = chat_loop ag 0 (first_state user_input history)"
  by (simp add: chat_stream_def first_state_def Let_def yield_def print_def)

lemma first_state_fields [simp]:
  "shared_history (first_state user_input history) = build_history history @ [UserMsg user_input]"
  "yielded (first_state user_input history) = [Status status_text]"
  "printed (first_state user_input history) = [LogStart (take 50 user_input)]"
  "invoked (first_state user_input history) = []"
  by (simp_all add: first_state_def)

text \<open>
  C5. Let the first stream of a request consist of content fragments only, each of them
  non-empty, followed by the end event, which reports no tool-call intent. Then after
  the status event \<open>chat_stream\<close> yields one start event, one chunk for each fragment in
  order and one end event with the concatenation of the fragments; it invokes no tool,
  leaves the transcript as it was and returns in the first round. When there is no
  fragment, it yields the start event, one chunk with the whole text of the end event if
  that text is not empty, and the end event with that text.
\<close>

theorem content_only_stream_is_final_answer:
  assumes "astream_events ag 1 (build_history history @ [UserMsg user_input]) =
      fragments frags @ [Event (OnChatModelEnd out)]"
    and "\<forall>f\<in>set frags. f \<noteq> []"
    and "case out of None \<Rightarrow> True
         | Some output \<Rightarrow> out_tool_calls output = None \<or> out_tool_calls output = Some []"
  shows "yielded (chat_stream ag user_input history) =
      Status status_text # AIResponseStart replying_text
        # (if frags \<noteq> []
           then map AIResponseChunk frags @ [AIResponseEnd (concat frags)]
           else (let text = (case out of Some output \<Rightarrow> or_str (out_content output) [] | None \<Rightarrow> [])
                 in (if text \<noteq> [] then [AIResponseChunk text] else []) @ [AIResponseEnd text])) \<and>
    invoked (chat_stream ag user_input history) = [] \<and>
    shared_history (chat_stream ag user_input history) = build_history history @ [UserMsg user_input] \<and>
    filter is_round_log (printed (chat_stream ag user_input history)) = [LogRound 1]"
proof -
  let ?st = "first_state user_input history"
  let ?rv = "fst (round_stream ag 1 ?st)"
  let ?text = "case out of Some output \<Rightarrow> or_str (out_content output) [] | None \<Rightarrow> []"
  have s: "astream_events ag 1 (shared_history ?st) = fragments frags @ [Event (OnChatModelEnd out)]"
    using assms(1) by simp
  note nr = no_raise_fragments [of frags]
  have cp: "content_pieces (astream_events ag 1 (shared_history ?st)) = frags"
    by (simp only: s content_pieces_end [OF nr] content_pieces_fragments [OF assms(2)])
  have check: "tool_calls_check ?rv = None \<or> tool_calls_check ?rv = Some []"
    using round_stream_end(1) [OF s nr] assms(3) by (cases out) simp_all
  have prev: "content_preview ?rv = ?text"
    by (rule round_stream_end(2) [OF s nr])
  have buf: "buffered_chunks ?rv = frags"
    by (simp only: round_stream_buffered cp)
  have started: "response_started ?rv \<longleftrightarrow> frags \<noteq> []"
    by (simp only: round_stream_started cp)
  have ft: "final_text ?rv = (if frags \<noteq> [] then concat frags else ?text)"
    by (simp only: final_text_def buf prev)
  have r: "chat_round ag (0 + 1) ?st = (False, finish_round ?rv (snd (round_stream ag 1 ?st)))"
    using chat_round_final [OF check] by simp
  have "\<not> fst (chat_round ag (0 + 1) ?st)"
    by (simp only: r fst_conv) simp
  from chat_loop_return [OF _ this]
  have loop: "chat_stream ag user_input history = finish_round ?rv (snd (round_stream ag 1 ?st))"
    by (simp only: chat_stream_loop r snd_conv) (simp add: max_rounds_def)
  have y: "yielded (snd (round_stream ag 1 ?st)) =
      Status status_text # (if frags \<noteq> [] then AIResponseStart replying_text # map AIResponseChunk frags else [])"
    by (simp only: round_stream_yielded cp) simp
  have "yielded (chat_stream ag user_input history) =
      Status status_text # AIResponseStart replying_text
        # (if frags \<noteq> []
           then map AIResponseChunk frags @ [AIResponseEnd (concat frags)]
           else (let text = ?text
                 in (if text \<noteq> [] then [AIResponseChunk text] else []) @ [AIResponseEnd text]))"
    by (simp only: loop finish_round_yielded y started ft) (simp add: Let_def)
  moreover have "invoked (chat_stream ag user_input history) = []"
    by (simp add: loop)
  moreover have "shared_history (chat_stream ag user_input history) =
      build_history history @ [UserMsg user_input]"
    by (simp add: loop)
  moreover have "filter is_round_log (printed (chat_stream ag user_input history)) = [LogRound 1]"
    by (simp add: loop round_stream_round_logs)
  ultimately show ?thesis
    by blast
qed

theorem content_only_stream_is_final_answer_witness:
  "ascii ''Hel'' \<noteq> [] \<and> ascii ''lo'' \<noteq> [] \<and>
   yielded (chat_stream
      (scripted_agent
        (\<lambda>n. fragments [ascii ''Hel'', ascii ''lo'']
              @ [Event (OnChatModelEnd (Some (Output (Some []) (Some (ascii ''Hello'')))))])
        [])
      (ascii ''q'') []) =
     [Status status_text, AIResponseStart replying_text, AIResponseChunk (ascii ''Hel''),
      AIResponseChunk (ascii ''lo''), AIResponseEnd (ascii ''Hello'')] \<and>
   invoked (chat_stream
      (scripted_agent
        (\<lambda>n. fragments [ascii ''Hel'', ascii ''lo'']
              @ [Event (OnChatModelEnd (Some (Output (Some []) (Some (ascii ''Hello'')))))])
        [])
      (ascii ''q'') []) = []"
proof -
  let ?frags = "[ascii ''Hel'', ascii ''lo'']"
  let ?out = "Some (Output (Some []) (Some (ascii ''Hello'')))"
  let ?ag = "scripted_agent (\<lambda>n. fragments ?frags @ [Event (OnChatModelEnd ?out)]) []"
  have h1: "astream_events ?ag 1 (build_history [] @ [UserMsg (ascii ''q'')]) =
      fragments ?frags @ [Event (OnChatModelEnd ?out)]"
    by (simp add: scripted_agent_def)
  have h2: "\<forall>f\<in>set ?frags. f \<noteq> []"
    by (simp add: ascii_def)
  have h3: "case ?out of None \<Rightarrow> True
         | Some output \<Rightarrow> out_tool_calls output = None \<or> out_tool_calls output = Some []"
    by simp
  from content_only_stream_is_final_answer [OF h1 h2 h3]
  have "yielded (chat_stream ?ag (ascii ''q'') []) =
      Status status_text # AIResponseStart replying_text
        # (if ?frags \<noteq> []
           then map AIResponseChunk ?frags @ [AIResponseEnd (concat ?frags)]
           else (let text = (case ?out of Some output \<Rightarrow> or_str (out_content output) [] | None \<Rightarrow> [])
                 in (if text \<noteq> [] then [AIResponseChunk text] else []) @ [AIResponseEnd text]))"
    and "invoked (chat_stream ?ag (ascii ''q'') []) = []"
    by blast+
  with h2 show ?thesis
    by (simp add: ascii_def)
qed

subsection \<open>A model that always asks for tools\<close>

lemma tool_call_stream_round:
  assumes "tool_call_stream (astream_events ag i (shared_history st))"
  shows "fst (chat_round ag i st)"
    and "length (filter is_tool_plan (yielded (snd (chat_round ag i st)))) =
      length (filter is_tool_plan (yielded st)) + 1"
    and "\<exists>evs. yielded (snd (chat_round ag i st)) = yielded st @ evs \<and> \<not> list_ex is_error evs"
proof -
  from assms obtain pre tc tcs c where
    s: "astream_events ag i (shared_history st) =
      pre @ [Event (OnChatModelEnd (Some (Output (Some (tc # tcs)) c)))]"
    and nr: "no_raise pre"
    by (rule tool_call_streamD)
  note r = tool_stream_round [OF s nr]
  show "fst (chat_round ag i st)"
    by (simp add: r(1))
  show "length (filter is_tool_plan (yielded (snd (chat_round ag i st)))) =
      length (filter is_tool_plan (yielded st)) + 1"
    by (simp add: r(2) all_intent_events_no_plan intent_events_no_plan chunks_no_plan)
  let ?evs = "(if content_pieces pre \<noteq> []
           then AIResponseStart replying_text # map AIResponseChunk (content_pieces pre) else [])
        @ ToolPlan (plan_text (length (tc # tcs))) (length (tc # tcs))
        # concat (map (intent_events ag (length (tc # tcs))) (enumerate 1 (tc # tcs)))"
  have "\<not> list_ex is_error ?evs"
    using all_intent_events_no_error [of ag "length (tc # tcs)" "enumerate 1 (tc # tcs)"]
      chunks_no_error [of "content_pieces pre"]
    by simp
  with r(2) show "\<exists>evs. yielded (snd (chat_round ag i st)) = yielded st @ evs \<and> \<not> list_ex is_error evs"
    by blast
qed

lemma chat_loop_only_tool_rounds:
  assumes "\<forall>n messages. tool_call_stream (astream_events ag n messages)"
    and "i \<le> max_rounds"
  shows "filter is_round_log (printed (chat_loop ag i st)) =
      filter is_round_log (printed st) @ map LogRound [i + 1..<max_rounds + 1] \<and>
    length (filter is_tool_plan (yielded (chat_loop ag i st))) =
      length (filter is_tool_plan (yielded st)) + (max_rounds - i) \<and>
    (\<exists>evs. yielded (chat_loop ag i st) =
        yielded st @ evs @ [AIResponseStart replying_text, AIResponseChunk max_rounds_text,
          AIResponseEnd max_rounds_text] \<and>
      \<not> list_ex is_error evs) \<and>
    (\<exists>ls. printed (chat_loop ag i st) = ls @ [LogMaxRounds max_rounds])"
  using assms
proof (induction ag i st rule: chat_loop.induct)
  case (1 ag round_index st)
  show ?case
  proof (cases "round_index < max_rounds")
    case False
    with "1.prems"(2) have eq: "round_index = max_rounds"
      by simp
    have ex: "chat_loop ag round_index st = rounds_exhausted st"
      by (rule chat_loop_exhausted [OF False])
    have "\<exists>evs. yielded (rounds_exhausted st) =
        yielded st @ evs @ [AIResponseStart replying_text, AIResponseChunk max_rounds_text,
          AIResponseEnd max_rounds_text] \<and> \<not> list_ex is_error evs"
      by (intro exI [of _ "[]"]) simp
    then show ?thesis
      by (simp only: ex) (simp add: eq)
  next
    case lt: True
    let ?st1 = "snd (chat_round ag (round_index + 1) st)"
    have tcs: "tool_call_stream (astream_events ag (round_index + 1) (shared_history st))"
      using "1.prems"(1) by blast
    note r = tool_call_stream_round [OF tcs]
    have eq: "chat_loop ag round_index st = chat_loop ag (round_index + 1) ?st1"
      by (rule chat_loop_continue [OF lt r(1)])
    from lt have le: "round_index + 1 \<le> max_rounds"
      by simp
    note ih = "1.IH" [OF lt r(1) "1.prems"(1) le]
    have logs1: "filter is_round_log (printed ?st1) =
        filter is_round_log (printed st) @ [LogRound (round_index + 1)]"
      by (rule chat_round_round_logs)
    have upt: "[round_index + 1..<max_rounds + 1] =
        (round_index + 1) # [round_index + 1 + 1..<max_rounds + 1]"
      using lt by (simp add: upt_rec)
    have a: "filter is_round_log (printed (chat_loop ag round_index st)) =
        filter is_round_log (printed st) @ map LogRound [round_index + 1..<max_rounds + 1]"
      using ih logs1 unfolding eq upt by simp
    have b: "length (filter is_tool_plan (yielded (chat_loop ag round_index st))) =
        length (filter is_tool_plan (yielded st)) + (max_rounds - round_index)"
      using ih r(2) lt unfolding eq by simp
    from r(3) obtain evs1 where y1: "yielded ?st1 = yielded st @ evs1" and ne1: "\<not> list_ex is_error evs1"
      by blast
    from ih obtain evs2 where y2: "yielded (chat_loop ag (round_index + 1) ?st1) =
        yielded ?st1 @ evs2 @ [AIResponseStart replying_text, AIResponseChunk max_rounds_text,
          AIResponseEnd max_rounds_text]" and ne2: "\<not> list_ex is_error evs2"
      by blast
    have c: "\<exists>evs. yielded (chat_loop ag round_index st) =
        yielded st @ evs @ [AIResponseStart replying_text, AIResponseChunk max_rounds_text,
          AIResponseEnd max_rounds_text] \<and> \<not> list_ex is_error evs"
      using y1 y2 ne1 ne2 by (intro exI [of _ "evs1 @ evs2"]) (simp add: eq)
    have d: "\<exists>ls. printed (chat_loop ag round_index st) = ls @ [LogMaxRounds max_rounds]"
      using ih unfolding eq by blast
    from a b c d show ?thesis
      by blast
  qed
qed

text \<open>
  C4. The loop is bounded by 25 rounds: whatever the model does, \<open>chat_stream\<close> returns
  after at most 25 rounds (it is a total function, and the rounds printed are at most
  25). With a model whose every stream ends by reporting tool-call intents, the rounds
  run are exactly the rounds 1 to 25, each with its tool plan, and the events end with
  the start, chunk and end events of the round-exhaustion message; no error event is
  yielded.
\<close>

theorem chat_stream_stops_after_25_rounds:
  "max_rounds = 25 \<and>
   length (filter is_round_log (printed (chat_stream ag0 user_input0 history0))) \<le> 25 \<and>
   ((\<forall>n messages. tool_call_stream (astream_events ag n messages)) \<longrightarrow>
      filter is_round_log (printed (chat_stream ag user_input history)) = map LogRound [1..<26] \<and>
      length (filter is_tool_plan (yielded (chat_stream ag user_input history))) = 25 \<and>
      (\<exists>evs. yielded (chat_stream ag user_input history) =
          Status status_text # evs @ [AIResponseStart replying_text,
            AIResponseChunk max_rounds_text, AIResponseEnd max_rounds_text] \<and>
        \<not> list_ex is_error evs) \<and>
      \<not> list_ex is_error (yielded (chat_stream ag user_input history)) \<and>
      (\<exists>ls. printed (chat_stream ag user_input history) = ls @ [LogMaxRounds 25]))"
proof (intro conjI impI)
  show "max_rounds = 25"
    by (simp add: max_rounds_def)
  from chat_loop_rounds_bound [of 0 ag0 "first_state user_input0 history0"]
  obtain k where "0 + k \<le> max_rounds"
    and "filter is_round_log (printed (chat_loop ag0 0 (first_state user_input0 history0))) =
       filter is_round_log (printed (first_state user_input0 history0)) @ map LogRound [0 + 1..<0 + 1 + k]"
    by auto
  then show "length (filter is_round_log (printed (chat_stream ag0 user_input0 history0))) \<le> 25"
    by (simp add: chat_stream_loop max_rounds_def)
next
  assume always: "\<forall>n messages. tool_call_stream (astream_events ag n messages)"
  note l = chat_loop_only_tool_rounds [OF always, of 0 "first_state user_input history"]
  from l show "filter is_round_log (printed (chat_stream ag user_input history)) = map LogRound [1..<26]"
    by (simp add: chat_stream_loop max_rounds_def)
  from l show "length (filter is_tool_plan (yielded (chat_stream ag user_input history))) = 25"
    by (simp add: chat_stream_loop max_rounds_def)
  from l obtain evs where y: "yielded (chat_stream ag user_input history) =
          Status status_text # evs @ [AIResponseStart replying_text,
            AIResponseChunk max_rounds_text, AIResponseEnd max_rounds_text]"
    and ne: "\<not> list_ex is_error evs"
    by (auto simp: chat_stream_loop)
  then show "\<exists>evs. yielded (chat_stream ag user_input history) =
          Status status_text # evs @ [AIResponseStart replying_text,
            AIResponseChunk max_rounds_text, AIResponseEnd max_rounds_text] \<and>
        \<not> list_ex is_error evs"
    by blast
  from y ne show "\<not> list_ex is_error (yielded (chat_stream ag user_input history))"
    by simp
  from l show "\<exists>ls. printed (chat_stream ag user_input history) = ls @ [LogMaxRounds 25]"
    by (simp add: chat_stream_loop max_rounds_def)
qed

theorem chat_stream_stops_after_25_rounds_witness:
  "tool_call_stream
      [Event (OnChatModelEnd (Some (Output (Some [ObjCall None (Some (ascii ''t'')) None]) None)))] \<and>
   filter is_round_log (printed (chat_stream
      (scripted_agent
        (\<lambda>n. [Event (OnChatModelEnd (Some (Output (Some [ObjCall None (Some (ascii ''t'')) None]) None)))])
        [])
      (ascii ''q'') [])) = map LogRound [1..<26] \<and>
   length (filter is_tool_plan (yielded (chat_stream
      (scripted_agent
        (\<lambda>n. [Event (OnChatModelEnd (Some (Output (Some [ObjCall None (Some (ascii ''t'')) None]) None)))])
        [])
      (ascii ''q'') []))) = 25"
proof -
  let ?s = "[Event (OnChatModelEnd (Some (Output (Some [ObjCall None (Some (ascii ''t'')) None]) None)))]"
  let ?ag = "scripted_agent (\<lambda>n. ?s) []"
  have s: "tool_call_stream ?s"
    by (simp add: tool_call_stream_def no_raise_def)
  then have h: "\<forall>n messages. tool_call_stream (astream_events ?ag n messages)"
    by (simp add: scripted_agent_def)
  from chat_stream_stops_after_25_rounds [of ?ag "ascii ''q''" "[]" ?ag "ascii ''q''" "[]"] h
  have "filter is_round_log (printed (chat_stream ?ag (ascii ''q'') [])) = map LogRound [1..<26]"
    and "length (filter is_tool_plan (yielded (chat_stream ?ag (ascii ''q'') []))) = 25"
    by blast+
  with s show ?thesis
    by blast
qed

subsection \<open>The events and transcript entries of a tool round\<close>

lemma exec_tool_call_not_found:
  assumes "lookup_tool ag (intent_name i tc) = None"
  shows "yielded (exec_tool_call ag n i tc st) =
      yielded st @ [ToolStart (intent_id i tc) (intent_name i tc) (intent_args ag i tc) (progress_text i n),
        ToolError (intent_id i tc) ([0x5DE5, 0x5177, 32, 39] @ intent_name i tc @ [39, 32, 0x672A, 0x627E, 0x5230])]"
    and "shared_history (exec_tool_call ag n i tc st) =
      shared_history st @ [ToolMsg (intent_id i tc) (intent_name i tc)
        ([0x9519, 0x8BEF, 58, 32, 0x5DE5, 0x5177, 32, 39] @ intent_name i tc
          @ [39, 32, 0x672A, 0x627E, 0x5230])]"
    and "invoked (exec_tool_call ag n i tc st) = invoked st"
  using assms
  by (simp_all add: exec_tool_call_yielded exec_tool_call_history exec_tool_call_invoked
      intent_events_def intent_message_def intent_invocations_def intent_outcome_def
      not_found_text_def error_result_def)

lemma exec_tool_call_raises:
  assumes "lookup_tool ag (intent_name i tc) = Some t"
    and "t_ainvoke t (intent_args ag i tc) = Inl e"
  shows "yielded (exec_tool_call ag n i tc st) =
      yielded st @ [ToolStart (intent_id i tc) (intent_name i tc) (intent_args ag i tc) (progress_text i n),
        ToolError (intent_id i tc) ([0x5DE5, 0x5177, 0x6267, 0x884C, 0x51FA, 0x9519, 58, 32] @ e)]"
    and "shared_history (exec_tool_call ag n i tc st) =
      shared_history st @ [ToolMsg (intent_id i tc) (intent_name i tc)
        ([0x9519, 0x8BEF, 58, 32, 0x5DE5, 0x5177, 0x6267, 0x884C, 0x51FA, 0x9519, 58, 32] @ e)]"
  using assms
  by (simp_all add: exec_tool_call_yielded exec_tool_call_history
      intent_events_def intent_message_def intent_outcome_def
      exec_error_text_def error_result_def)

lemma exec_tool_call_returns:
  assumes "lookup_tool ag (intent_name i tc) = Some t"
    and "t_ainvoke t (intent_args ag i tc) = Inr r"
  shows "yielded (exec_tool_call ag n i tc st) =
      yielded st @ [ToolStart (intent_id i tc) (intent_name i tc) (intent_args ag i tc) (progress_text i n),
        ToolEnd (intent_id i tc) (intent_name i tc) r]"
    and "shared_history (exec_tool_call ag n i tc st) =
      shared_history st @ [ToolMsg (intent_id i tc) (intent_name i tc) r]"
  using assms
  by (simp_all add: exec_tool_call_yielded exec_tool_call_history
      intent_events_def intent_message_def intent_outcome_def)

text \<open>
  C6. In a round whose last stream event reports the intents \<open>tc # tcs\<close>, \<open>k\<close> of them,
  \<open>chat_stream\<close> yields, after what the stream forwarded, one plan event with
  \<open>tool_count = k\<close> and then for each intent in order a start event followed by exactly
  one event that is an end or an error event; no \<open>error\<close> event is yielded and the round
  continues with the next one. For any single intent, the error texts are those of the
  source, given here by their code points. A name without an exact match in the
  registry gives the error event with the text \<open>U+5DE5 U+5177 'name' U+672A U+627E
  U+5230\<close> ("tool 'name' not found") and the transcript entry with that text after the
  prefix \<open>U+9519 U+8BEF: \<close> ("error: "). An invocation that raises gives the error event
  with the text \<open>U+5DE5 U+5177 U+6267 U+884C U+51FA U+9519: \<close> ("tool execution failed: ")
  followed by the message of the exception, and the transcript entry with that text
  after the same prefix. So the content of the entry is never empty and names the tool
  or carries the message of the exception.
\<close>

theorem tool_round_events_and_errors:
  assumes "astream_events ag round_index (shared_history st) =
      pre @ [Event (OnChatModelEnd (Some (Output (Some (tc # tcs)) c)))]"
    and "no_raise pre"
  shows "fst (chat_round ag round_index st) \<and>
    yielded (snd (chat_round ag round_index st)) =
      yielded (snd (round_stream ag round_index st))
        @ ToolPlan (plan_text (length (tc # tcs))) (length (tc # tcs))
        # concat (map (intent_events ag (length (tc # tcs))) (enumerate 1 (tc # tcs))) \<and>
    shared_history (snd (chat_round ag round_index st)) =
      shared_history st @ AssistantToolCalls [] (tc # tcs)
        # map (intent_message ag) (enumerate 1 (tc # tcs)) \<and>
    (\<exists>evs. yielded (snd (chat_round ag round_index st)) = yielded st @ evs \<and>
       \<not> list_ex is_error evs) \<and>
    (\<exists>x. yielded (exec_tool_call ag n j tc' st') =
        yielded st' @ [ToolStart (intent_id j tc') (intent_name j tc') (intent_args ag j tc')
          (progress_text j n), x] \<and>
       is_tool_outcome x \<and> intent_events ag n (j, tc') =
         [ToolStart (intent_id j tc') (intent_name j tc') (intent_args ag j tc')
          (progress_text j n), x]) \<and>
    (\<exists>content. shared_history (exec_tool_call ag n j tc' st') =
        shared_history st' @ [ToolMsg (intent_id j tc') (intent_name j tc') content] \<and>
       intent_message ag (j, tc') = ToolMsg (intent_id j tc') (intent_name j tc') content) \<and>
    (lookup_tool ag (intent_name j tc') = None \<longrightarrow>
       yielded (exec_tool_call ag n j tc' st') =
         yielded st' @ [ToolStart (intent_id j tc') (intent_name j tc') (intent_args ag j tc')
           (progress_text j n),
           ToolError (intent_id j tc') ([0x5DE5, 0x5177, 32, 39] @ intent_name j tc' @ [39, 32, 0x672A, 0x627E, 0x5230])] \<and>
       shared_history (exec_tool_call ag n j tc' st') =
         shared_history st' @ [ToolMsg (intent_id j tc') (intent_name j tc')
           ([0x9519, 0x8BEF, 58, 32, 0x5DE5, 0x5177, 32, 39] @ intent_name j tc'
          @ [39, 32, 0x672A, 0x627E, 0x5230])]) \<and>
    (\<forall>t e. lookup_tool ag (intent_name j tc') = Some t \<and>
         t_ainvoke t (intent_args ag j tc') = Inl e \<longrightarrow>
       yielded (exec_tool_call ag n j tc' st') =
         yielded st' @ [ToolStart (intent_id j tc') (intent_name j tc') (intent_args ag j tc')
           (progress_text j n),
           ToolError (intent_id j tc') ([0x5DE5, 0x5177, 0x6267, 0x884C, 0x51FA, 0x9519, 58, 32] @ e)] \<and>
       shared_history (exec_tool_call ag n j tc' st') =
         shared_history st' @ [ToolMsg (intent_id j tc') (intent_name j tc')
           ([0x9519, 0x8BEF, 58, 32, 0x5DE5, 0x5177, 0x6267, 0x884C, 0x51FA, 0x9519, 58, 32] @ e)])"
proof -
  note r = tool_stream_round [OF assms]
  have go: "fst (chat_round ag round_index st)"
    by (simp add: r(1))
  have y: "yielded (snd (chat_round ag round_index st)) =
      yielded (snd (round_stream ag round_index st))
        @ ToolPlan (plan_text (length (tc # tcs))) (length (tc # tcs))
        # concat (map (intent_events ag (length (tc # tcs))) (enumerate 1 (tc # tcs)))"
    by (simp only: r(1) snd_conv tool_round_yielded)
  have ne: "\<exists>evs. yielded (snd (chat_round ag round_index st)) = yielded st @ evs \<and>
       \<not> list_ex is_error evs"
    by (rule tool_call_stream_round(3))
      (simp add: assms tool_call_stream_def)
  have ev: "\<exists>x. yielded (exec_tool_call ag n j tc' st') =
        yielded st' @ [ToolStart (intent_id j tc') (intent_name j tc') (intent_args ag j tc')
          (progress_text j n), x] \<and>
       is_tool_outcome x \<and> intent_events ag n (j, tc') =
         [ToolStart (intent_id j tc') (intent_name j tc') (intent_args ag j tc')
          (progress_text j n), x]"
    by (intro exI [of _ "fst (intent_outcome ag j tc')"])
      (simp add: exec_tool_call_yielded intent_events_def intent_outcome_is_outcome)
  have msg: "\<exists>content. shared_history (exec_tool_call ag n j tc' st') =
        shared_history st' @ [ToolMsg (intent_id j tc') (intent_name j tc') content] \<and>
       intent_message ag (j, tc') = ToolMsg (intent_id j tc') (intent_name j tc') content"
    by (intro exI [of _ "snd (intent_outcome ag j tc')"])
      (simp add: exec_tool_call_history intent_message_def)
  from go y r(3) ne ev msg
    exec_tool_call_not_found(1,2) [of ag j tc' n st']
    exec_tool_call_raises [of ag j tc' _ _ n st']
  show ?thesis
    by blast
qed


theorem tool_round_events_and_errors_witness:
  "no_raise [] \<and>
   lookup_tool
     (scripted_agent
       (\<lambda>n. [Event (OnChatModelEnd (Some (Output
               (Some [ObjCall None (Some (ascii ''nope'')) None,
                      ObjCall (Some (ascii ''c2'')) (Some (ascii ''bad'')) None]) None)))])
       [Tool (ascii ''bad'') (\<lambda>args. Inl (ascii ''boom''))])
     (ascii ''nope'') = None \<and>
   yielded (snd (chat_round
     (scripted_agent
       (\<lambda>n. [Event (OnChatModelEnd (Some (Output
               (Some [ObjCall None (Some (ascii ''nope'')) None,
                      ObjCall (Some (ascii ''c2'')) (Some (ascii ''bad'')) None]) None)))])
       [Tool (ascii ''bad'') (\<lambda>args. Inl (ascii ''boom''))])
     1 (start_state [UserMsg (ascii ''q'')]))) =
     [ToolPlan (plan_text 2) 2,
      ToolStart (ascii ''call_1'') (ascii ''nope'') (PDict []) (progress_text 1 2),
      ToolError (ascii ''call_1'')
        ([0x5DE5, 0x5177, 32, 39] @ ascii ''nope'' @ [39, 32, 0x672A, 0x627E, 0x5230]),
      ToolStart (ascii ''c2'') (ascii ''bad'') (PDict []) (progress_text 2 2),
      ToolError (ascii ''c2'')
        ([0x5DE5, 0x5177, 0x6267, 0x884C, 0x51FA, 0x9519, 58, 32] @ ascii ''boom'')] \<and>
   shared_history (snd (chat_round
     (scripted_agent
       (\<lambda>n. [Event (OnChatModelEnd (Some (Output
               (Some [ObjCall None (Some (ascii ''nope'')) None,
                      ObjCall (Some (ascii ''c2'')) (Some (ascii ''bad'')) None]) None)))])
       [Tool (ascii ''bad'') (\<lambda>args. Inl (ascii ''boom''))])
     1 (start_state [UserMsg (ascii ''q'')]))) =
     [UserMsg (ascii ''q''),
      AssistantToolCalls []
        [ObjCall None (Some (ascii ''nope'')) None,
         ObjCall (Some (ascii ''c2'')) (Some (ascii ''bad'')) None],
      ToolMsg (ascii ''call_1'') (ascii ''nope'') 
        ([0x9519, 0x8BEF, 58, 32, 0x5DE5, 0x5177, 32, 39] @ ascii ''nope''
          @ [39, 32, 0x672A, 0x627E, 0x5230]),
      ToolMsg (ascii ''c2'') (ascii ''bad'') 
        ([0x9519, 0x8BEF, 58, 32, 0x5DE5, 0x5177, 0x6267, 0x884C, 0x51FA, 0x9519, 58, 32]
          @ ascii ''boom'')]"
proof -
  let ?tc1 = "ObjCall None (Some (ascii ''nope'')) None"
  let ?tc2 = "ObjCall (Some (ascii ''c2'')) (Some (ascii ''bad'')) None"
  let ?s = "[Event (OnChatModelEnd (Some (Output (Some [?tc1, ?tc2]) None)))]"
  let ?ag = "scripted_agent (\<lambda>n. ?s) [Tool (ascii ''bad'') (\<lambda>args. Inl (ascii ''boom''))]"
  let ?st = "start_state [UserMsg (ascii ''q'')]"
  have h1: "astream_events ?ag 1 (shared_history ?st) =
      [] @ [Event (OnChatModelEnd (Some (Output (Some (?tc1 # [?tc2])) None)))]"
    by (simp add: scripted_agent_def)
  have h2: "no_raise []"
    by (simp add: no_raise_def)
  have l: "lookup_tool ?ag (ascii ''nope'') = None"
    by (simp add: lookup_tool_def scripted_agent_def ascii_def)
  have rs: "yielded (snd (round_stream ?ag 1 ?st)) = []"
    by (simp add: round_stream_yielded scripted_agent_def start_state_def)
  have e1: "intent_events ?ag 2 (1, ?tc1) =
      [ToolStart (ascii ''call_1'') (ascii ''nope'') (PDict []) (progress_text 1 2),
       ToolError (ascii ''call_1'')
        ([0x5DE5, 0x5177, 32, 39] @ ascii ''nope'' @ [39, 32, 0x672A, 0x627E, 0x5230])]"
    by (simp add: intent_events_def intent_outcome_def intent_id_def intent_name_def
        intent_args_def lookup_tool_def scripted_agent_def or_str_def or_val_def parse_args_def
        ascii_def str_of_nat.simps not_found_text_def exec_error_text_def error_result_def)
  have e2: "intent_events ?ag 2 (2, ?tc2) =
      [ToolStart (ascii ''c2'') (ascii ''bad'') (PDict []) (progress_text 2 2),
       ToolError (ascii ''c2'')
        ([0x5DE5, 0x5177, 0x6267, 0x884C, 0x51FA, 0x9519, 58, 32] @ ascii ''boom'')]"
    by (simp add: intent_events_def intent_outcome_def intent_id_def intent_name_def
        intent_args_def lookup_tool_def scripted_agent_def or_str_def or_val_def parse_args_def
        ascii_def not_found_text_def exec_error_text_def error_result_def)
  have m1: "intent_message ?ag (1, ?tc1) =
      ToolMsg (ascii ''call_1'') (ascii ''nope'') 
        ([0x9519, 0x8BEF, 58, 32, 0x5DE5, 0x5177, 32, 39] @ ascii ''nope''
          @ [39, 32, 0x672A, 0x627E, 0x5230])"
    by (simp add: intent_message_def intent_outcome_def intent_id_def intent_name_def
        intent_args_def lookup_tool_def scripted_agent_def or_str_def or_val_def parse_args_def
        ascii_def str_of_nat.simps not_found_text_def exec_error_text_def error_result_def)
  have m2: "intent_message ?ag (2, ?tc2) =
      ToolMsg (ascii ''c2'') (ascii ''bad'') 
        ([0x9519, 0x8BEF, 58, 32, 0x5DE5, 0x5177, 0x6267, 0x884C, 0x51FA, 0x9519, 58, 32]
          @ ascii ''boom'')"
    by (simp add: intent_message_def intent_outcome_def intent_id_def intent_name_def
        intent_args_def lookup_tool_def scripted_agent_def or_str_def or_val_def parse_args_def
        ascii_def not_found_text_def exec_error_text_def error_result_def)
  have en: "enumerate 1 [?tc1, ?tc2] = [(1, ?tc1), (2, ?tc2)]"
    by (simp add: enumerate_eq_zip upt_rec)
  have len: "length [?tc1, ?tc2] = 2"
    by simp
  have sh: "shared_history ?st = [UserMsg (ascii ''q'')]"
    by (simp add: start_state_def)
  from tool_round_events_and_errors [OF h1 h2]
  have "yielded (snd (chat_round ?ag 1 ?st)) =
      yielded (snd (round_stream ?ag 1 ?st))
        @ ToolPlan (plan_text (length [?tc1, ?tc2])) (length [?tc1, ?tc2])
        # concat (map (intent_events ?ag (length [?tc1, ?tc2])) (enumerate 1 [?tc1, ?tc2]))"
    and "shared_history (snd (chat_round ?ag 1 ?st)) =
      shared_history ?st @ AssistantToolCalls [] [?tc1, ?tc2]
        # map (intent_message ?ag) (enumerate 1 [?tc1, ?tc2])"
    by blast+
  then have "yielded (snd (chat_round ?ag 1 ?st)) =
      [] @ ToolPlan (plan_text 2) 2 # concat
        [[ToolStart (ascii ''call_1'') (ascii ''nope'') (PDict []) (progress_text 1 2),
          ToolError (ascii ''call_1'')
        ([0x5DE5, 0x5177, 32, 39] @ ascii ''nope'' @ [39, 32, 0x672A, 0x627E, 0x5230])],
         [ToolStart (ascii ''c2'') (ascii ''bad'') (PDict []) (progress_text 2 2),
          ToolError (ascii ''c2'')
        ([0x5DE5, 0x5177, 0x6267, 0x884C, 0x51FA, 0x9519, 58, 32] @ ascii ''boom'')]]"
    and "shared_history (snd (chat_round ?ag 1 ?st)) =
      [UserMsg (ascii ''q'')] @ AssistantToolCalls [] [?tc1, ?tc2]
        # [ToolMsg (ascii ''call_1'') (ascii ''nope'') 
        ([0x9519, 0x8BEF, 58, 32, 0x5DE5, 0x5177, 32, 39] @ ascii ''nope''
          @ [39, 32, 0x672A, 0x627E, 0x5230]),
           ToolMsg (ascii ''c2'') (ascii ''bad'') 
        ([0x9519, 0x8BEF, 58, 32, 0x5DE5, 0x5177, 0x6267, 0x884C, 0x51FA, 0x9519, 58, 32]
          @ ascii ''boom'')]"
    unfolding en rs len sh list.map e1 e2 m1 m2 by simp_all
  with h2 l show ?thesis
    by simp
qed

subsection \<open>The shape of the transcript\<close>

lemma intent_id_given:
  "intent_id j tc = or_str (given_id tc) (ascii ''call_'' @ str_of_nat j)"
  by (cases tc) (simp_all add: intent_id_def Let_def)

lemma chat_stream_history_prefix:
  "\<exists>ms. shared_history (chat_stream ag user_input history) =
     build_history history @ [UserMsg user_input] @ ms"
  using chat_loop_history_prefix [of ag 0 "first_state user_input history"]
  by (simp add: chat_stream_loop)

text \<open>
  C7. After a round with tool calls the transcript is the transcript before it, followed
  by an assistant entry with empty content that carries the intents, followed by one
  tool entry for each intent, in the order of the intents. The tool entry of the \<open>j\<close>-th
  intent carries the identifier used for that intent in its events: the identifier the
  intent has, or \<open>call_j\<close> when it has none. This is the transcript the next request to
  the model is made with. Every round, the loop and \<open>chat_stream\<close> as a whole only
  append to the transcript.
\<close>

theorem tool_round_transcript_shape:
  assumes "astream_events ag (round_index + 1) (shared_history st) =
      pre @ [Event (OnChatModelEnd (Some (Output (Some (tc # tcs)) c)))]"
    and "no_raise pre"
    and "round_index < max_rounds"
  shows "shared_history (snd (chat_round ag (round_index + 1) st)) =
      shared_history st @ AssistantToolCalls [] (tc # tcs)
        # map (\<lambda>(j, tc'). ToolMsg (intent_id j tc') (intent_name j tc') (snd (intent_outcome ag j tc')))
            (enumerate 1 (tc # tcs)) \<and>
    intent_id j tc' = or_str (given_id tc') (ascii ''call_'' @ str_of_nat j) \<and>
    chat_loop ag round_index st =
      chat_loop ag (round_index + 1) (snd (chat_round ag (round_index + 1) st)) \<and>
    round_stream ag (round_index + 2) (snd (chat_round ag (round_index + 1) st)) =
      consume_stream
        (astream_events ag (round_index + 2)
          (shared_history st @ AssistantToolCalls [] (tc # tcs)
            # map (\<lambda>(j, tc'). ToolMsg (intent_id j tc') (intent_name j tc') (snd (intent_outcome ag j tc')))
                (enumerate 1 (tc # tcs))))
        init_round_vars
        (print (LogRound (round_index + 2)) (snd (chat_round ag (round_index + 1) st))) \<and>
    (\<exists>ms. shared_history (snd (chat_round ag' i' st')) = shared_history st' @ ms) \<and>
    (\<exists>ms. shared_history (chat_loop ag' i' st') = shared_history st' @ ms) \<and>
    (\<exists>ms. shared_history (chat_stream ag' user_input history) =
       build_history history @ [UserMsg user_input] @ ms)"
proof -
  note r = tool_stream_round [OF assms(1,2)]
  have im: "intent_message ag =
      (\<lambda>(j, tc'). ToolMsg (intent_id j tc') (intent_name j tc') (snd (intent_outcome ag j tc')))"
    by (simp add: intent_message_def)
  have h: "shared_history (snd (chat_round ag (round_index + 1) st)) =
      shared_history st @ AssistantToolCalls [] (tc # tcs)
        # map (\<lambda>(j, tc'). ToolMsg (intent_id j tc') (intent_name j tc') (snd (intent_outcome ag j tc')))
            (enumerate 1 (tc # tcs))"
    using r(3) unfolding im .
  from r(1) have go: "fst (chat_round ag (round_index + 1) st)"
    by simp
  have next_round: "round_stream ag (round_index + 2) (snd (chat_round ag (round_index + 1) st)) =
      consume_stream
        (astream_events ag (round_index + 2)
          (shared_history st @ AssistantToolCalls [] (tc # tcs)
            # map (\<lambda>(j, tc'). ToolMsg (intent_id j tc') (intent_name j tc') (snd (intent_outcome ag j tc')))
                (enumerate 1 (tc # tcs))))
        init_round_vars
        (print (LogRound (round_index + 2)) (snd (chat_round ag (round_index + 1) st)))"
    unfolding round_stream_def h ..
  from h intent_id_given [of j tc'] chat_loop_continue [OF assms(3) go] next_round
    chat_round_history_prefix [of ag' i' st'] chat_loop_history_prefix [of ag' i' st']
    chat_stream_history_prefix [of ag' user_input history]
  show ?thesis
    by blast
qed

theorem tool_round_transcript_shape_witness:
  "no_raise [Event (OnChatModelStream (Some (Chunk (Some (ascii ''Hi'')))))] \<and>
   (0::nat) < max_rounds \<and>
   shared_history (snd (chat_round
     (scripted_agent
       (\<lambda>n. [Event (OnChatModelStream (Some (Chunk (Some (ascii ''Hi''))))),
             Event (OnChatModelEnd (Some (Output
               (Some [ObjCall (Some (ascii ''c1'')) (Some (ascii ''echo'')) None,
                      DictCall None None (Some (ascii ''nope'')) None]) None)))])
       [Tool (ascii ''echo'') (\<lambda>args. Inr (ascii ''ok''))])
     (0 + 1) (start_state [UserMsg (ascii ''q'')]))) =
     [UserMsg (ascii ''q''),
      AssistantToolCalls []
        [ObjCall (Some (ascii ''c1'')) (Some (ascii ''echo'')) None,
         DictCall None None (Some (ascii ''nope'')) None],
      ToolMsg (ascii ''c1'') (ascii ''echo'') (ascii ''ok''),
      ToolMsg (ascii ''call_2'') (ascii ''nope'') (error_result (not_found_text (ascii ''nope'')))]"
proof -
  let ?tc1 = "ObjCall (Some (ascii ''c1'')) (Some (ascii ''echo'')) None"
  let ?tc2 = "DictCall None None (Some (ascii ''nope'')) None"
  let ?pre = "[Event (OnChatModelStream (Some (Chunk (Some (ascii ''Hi'')))))]"
  let ?ag = "scripted_agent
       (\<lambda>n. [Event (OnChatModelStream (Some (Chunk (Some (ascii ''Hi''))))),
             Event (OnChatModelEnd (Some (Output (Some [?tc1, ?tc2]) None)))])
       [Tool (ascii ''echo'') (\<lambda>args. Inr (ascii ''ok''))]"
  let ?st = "start_state [UserMsg (ascii ''q'')]"
  have h1: "astream_events ?ag (0 + 1) (shared_history ?st) =
      ?pre @ [Event (OnChatModelEnd (Some (Output (Some (?tc1 # [?tc2])) None)))]"
    by (simp add: scripted_agent_def)
  have h2: "no_raise ?pre"
    by (simp add: no_raise_def)
  have h3: "(0::nat) < max_rounds"
    by (simp add: max_rounds_def)
  have en: "enumerate 1 [?tc1, ?tc2] = [(1, ?tc1), (2, ?tc2)]"
    by (simp add: enumerate_eq_zip upt_rec)
  have sh: "shared_history ?st = [UserMsg (ascii ''q'')]"
    by (simp add: start_state_def)
  have m1: "ToolMsg (intent_id 1 ?tc1) (intent_name 1 ?tc1) (snd (intent_outcome ?ag 1 ?tc1)) =
      ToolMsg (ascii ''c1'') (ascii ''echo'') (ascii ''ok'')"
    by (simp add: intent_outcome_def intent_id_def intent_name_def
        intent_args_def lookup_tool_def scripted_agent_def or_str_def or_val_def parse_args_def
        ascii_def)
  have m2: "ToolMsg (intent_id 2 ?tc2) (intent_name 2 ?tc2) (snd (intent_outcome ?ag 2 ?tc2)) =
      ToolMsg (ascii ''call_2'') (ascii ''nope'') (error_result (not_found_text (ascii ''nope'')))"
    by (simp add: intent_outcome_def intent_id_def intent_name_def Let_def
        intent_args_def lookup_tool_def scripted_agent_def or_str_def or_val_def parse_args_def
        ascii_def str_of_nat.simps)
  from tool_round_transcript_shape [OF h1 h2 h3]
  have "shared_history (snd (chat_round ?ag (0 + 1) ?st)) =
      shared_history ?st @ AssistantToolCalls [] [?tc1, ?tc2]
        # map (\<lambda>(j, tc'). ToolMsg (intent_id j tc') (intent_name j tc') (snd (intent_outcome ?ag j tc')))
            (enumerate 1 [?tc1, ?tc2])"
    by blast
  then have "shared_history (snd (chat_round ?ag (0 + 1) ?st)) =
      [UserMsg (ascii ''q'')] @ AssistantToolCalls [] [?tc1, ?tc2]
        # [ToolMsg (ascii ''c1'') (ascii ''echo'') (ascii ''ok''),
           ToolMsg (ascii ''call_2'') (ascii ''nope'') (error_result (not_found_text (ascii ''nope'')))]"
    unfolding en sh list.map prod.case m1 m2 .
  with h2 h3 show ?thesis
    by simp
qed

subsection \<open>Parsing the arguments of an intent\<close>

text \<open>
  C9, as far as the code goes. The empty string gives the empty mapping; a string that
  fails to decode is wrapped unchanged under the sentinel key; a mapping is used as it
  is; a value that is neither a string nor a mapping is stringified and wrapped under
  the sentinel key. But a string that decodes is replaced by the decoded value whatever
  that value is, so the result is a mapping only when the JSON text is an object: the
  text \<open>5\<close> reaches the tool as the number 5, while the number 5 itself would have been
  wrapped.
\<close>

theorem parse_args_by_kind_of_payload:
  "parse_args py (PStr []) = PDict [] \<and>
   (s \<noteq> [] \<and> json_loads py s = None \<longrightarrow> parse_args py (PStr s) = PDict [(raw_key, PStr s)]) \<and>
   (s \<noteq> [] \<and> json_loads py s = Some v \<longrightarrow> parse_args py (PStr s) = v) \<and>
   parse_args py (PDict kvs) = PDict kvs \<and>
   (\<not> is_str raw \<and> \<not> is_dict raw \<longrightarrow>
      parse_args py raw = PDict [(raw_key, PStr (py_str py raw))])"
  by (cases raw) (simp_all add: parse_args_def)

theorem parse_args_by_kind_of_payload_witness:
  "ascii ''5'' \<noteq> [] \<and> json_loads example_lib (ascii ''5'') = Some (PInt 5) \<and>
   parse_args example_lib (PStr (ascii ''5'')) = PInt 5 \<and>
   \<not> is_dict (parse_args example_lib (PStr (ascii ''5''))) \<and>
   \<not> is_str (PInt 5) \<and> \<not> is_dict (PInt 5) \<and>
   parse_args example_lib (PInt 5) = PDict [(raw_key, PStr (py_str example_lib (PInt 5)))] \<and>
   invoked (exec_tool_call
      (scripted_agent (\<lambda>n. []) [Tool (ascii ''echo'') (\<lambda>args. Inr (ascii ''ok''))])
      1 1
      (DictCall (Some (ascii ''c1''))
        (Some (FnDict (Some (ascii ''echo'')) (Some (PStr (ascii ''5''))))) None None)
      (start_state [])) = [(ascii ''echo'', PInt 5)]"
proof -
  have ne: "ascii ''5'' \<noteq> []"
    by (simp add: ascii_def)
  have dec: "json_loads example_lib (ascii ''5'') = Some (PInt 5)"
    by (simp add: example_lib_def ascii_def)
  from parse_args_by_kind_of_payload [of example_lib "ascii ''5''" "PInt 5" "[]" "PInt 5"] ne dec
  have p: "parse_args example_lib (PStr (ascii ''5'')) = PInt 5"
    and q: "parse_args example_lib (PInt 5) = PDict [(raw_key, PStr (py_str example_lib (PInt 5)))]"
    by simp_all
  have "invoked (exec_tool_call
      (scripted_agent (\<lambda>n. []) [Tool (ascii ''echo'') (\<lambda>args. Inr (ascii ''ok''))])
      1 1
      (DictCall (Some (ascii ''c1''))
        (Some (FnDict (Some (ascii ''echo'')) (Some (PStr (ascii ''5''))))) None None)
      (start_state [])) = [(ascii ''echo'', PInt 5)]"
    by (simp add: exec_tool_call_def scripted_agent_def start_state_def or_str_def or_val_def
        parse_args_def yield_def record_invocation_def append_history_def Let_def ascii_def)
  with ne dec p q show ?thesis
    by simp
qed

end
